theory Spec2Isabelle
  imports Complex_Main "HOL-Library.Product_Lexorder" "HOL-Library.Sublist"
begin

section \<open>Data model\<close>

text \<open>
  The module \<^verbatim>\<open>eda_template.py\<close> works on one kind of value: a pandas table whose rows are
  keyed by date and whose columns are keyed by a label. A table is modelled by its index
  and its columns in column order, each column carrying one cell per row. A cell of the
  merged table is a number or the no-value marker (NaN), modelled as \<open>None\<close>. Numbers are
  64-bit floats in the program; the model computes with \<open>real\<close>, so rounding and overflow
  of the floats are outside of it.

  A date is a triple (year, month, day); the lexicographic order of triples is the
  chronological order.
\<close>

type_synonym date = "nat \<times> nat \<times> nat"

datatype error =
  ProviderError | ValueError | KeyError | TypeError | AttributeError | InvalidIndexError | OSError

text \<open>A raised exception ends the function that called: the rest runs on a result only.\<close>

definition bind_result :: "error + 'a \<Rightarrow> ('a \<Rightarrow> error + 'b) \<Rightarrow> error + 'b" where
  "bind_result r f = (case r of Inl e \<Rightarrow> Inl e | Inr x \<Rightarrow> f x)"

record ('i, 'v) frame =
  idx :: "'i list"
  cols :: "(string \<times> 'v list) list"

type_synonym table = "(date, real option) frame"

definition columns :: "('i, 'v) frame \<Rightarrow> string list" where
  "columns f = map fst (cols f)"

text \<open>\<open>df[col]\<close>: the first column carrying the label, if any.\<close>

definition column :: "('i, 'v) frame \<Rightarrow> string \<Rightarrow> 'v list option" where
  "column f l = map_of (cols f) l"

text \<open>The cell of column \<open>l\<close> in the row keyed \<open>d\<close>; \<open>None\<close> when it holds no value.\<close>

definition cell :: "('i, 'v option) frame \<Rightarrow> string \<Rightarrow> 'i \<Rightarrow> 'v option" where
  "cell f l d =
     (case column f l of
        None \<Rightarrow> None
      | Some vs \<Rightarrow> (case map_of (zip (idx f) vs) d of None \<Rightarrow> None | Some v \<Rightarrow> v))"

text \<open>
  What is outside the program: the data provider behind \<^verbatim>\<open>web.DataReader(fred_id, "fred",
  start=start, end=end)\<close>, the clock behind \<^verbatim>\<open>datetime.today()\<close>, and the file system, which
  accepts or refuses the creation of a file at a path.
\<close>

record world =
  DataReader :: "string \<Rightarrow> string \<Rightarrow> string \<Rightarrow> error + table"
  today :: string
  writable :: "string \<Rightarrow> bool"

section \<open>Library operations on tables\<close>

text \<open>\<^verbatim>\<open>ts.rename(columns={old: new})\<close>: every column labelled \<open>old\<close> is relabelled \<open>new\<close>.\<close>

definition rename_columns :: "string \<Rightarrow> string \<Rightarrow> ('i, 'v) frame \<Rightarrow> ('i, 'v) frame" where
  "rename_columns old new f =
     f\<lparr>cols := map (\<lambda>(n, vs). (if n = old then new else n, vs)) (cols f)\<rparr>"

text \<open>Aligning a column on a new index: a key present in the old index keeps its cell,
  any other key holds no value.\<close>

definition reindex :: "'i list \<Rightarrow> 'i list \<Rightarrow> 'v option list \<Rightarrow> 'v option list" where
  "reindex old new vs =
     map (\<lambda>d. case map_of (zip old vs) d of None \<Rightarrow> None | Some v \<Rightarrow> v) new"

text \<open>
  \<^verbatim>\<open>pd.concat(frames, axis=1)\<close>, the outer join on the index. With no frame at all pandas
  raises \<^verbatim>\<open>ValueError("No objects to concatenate")\<close>. Frames that share one index are put
  side by side. Otherwise every column is aligned on the union of the indexes, which
  pandas refuses (\<^verbatim>\<open>InvalidIndexError\<close>) when an index holds a key twice; the union of the
  chronologically ordered indexes that the provider hands out is in chronological order.
\<close>

definition concat_axis1 ::
  "('i::linorder, 'v option) frame list \<Rightarrow> error + ('i, 'v option) frame" where
  "concat_axis1 fs =
     (if fs = [] then Inl ValueError
      else if list_all (\<lambda>f. idx f = idx (hd fs)) fs
        then Inr \<lparr>idx = idx (hd fs), cols = concat (map cols fs)\<rparr>
      else if list_ex (\<lambda>f. \<not> distinct (idx f)) fs then Inl InvalidIndexError
      else let ix = sort (remdups (concat (map idx fs)))
           in Inr \<lparr>idx = ix,
                   cols = concat (map (\<lambda>f. map (\<lambda>(n, vs). (n, reindex (idx f) ix vs)) (cols f)) fs)\<rparr>)"

section \<open>The fetcher\<close>

text \<open>
  The loop of \<^verbatim>\<open>fetch_fred_series\<close> over \<^verbatim>\<open>series.items()\<close>: the mapping is a Python dict,
  modelled by its items in insertion order. An error of the provider ends the loop.
\<close>

fun fetch_loop ::
  "(string \<Rightarrow> string \<Rightarrow> string \<Rightarrow> error + table) \<Rightarrow> (string \<times> string) list \<Rightarrow>
     string \<Rightarrow> string \<Rightarrow> table list \<Rightarrow> error + table list" where
  "fetch_loop rd [] start end' frames = Inr frames"
| "fetch_loop rd ((label, fred_id) # rest) start end' frames =
     (case rd fred_id start end' of
        Inl e \<Rightarrow> Inl e
      | Inr ts \<Rightarrow> fetch_loop rd rest start end' (frames @ [rename_columns fred_id label ts]))"

definition resolve_end :: "world \<Rightarrow> string option \<Rightarrow> string" where
  "resolve_end w end' = (case end' of None \<Rightarrow> today w | Some e \<Rightarrow> e)"

definition fetch_fred_series ::
  "world \<Rightarrow> (string \<times> string) list \<Rightarrow> string \<Rightarrow> string option \<Rightarrow> error + table" where
  "fetch_fred_series w series start end' =
     (case fetch_loop (DataReader w) series start (resolve_end w end') [] of
        Inl e \<Rightarrow> Inl e
      | Inr frames \<Rightarrow> concat_axis1 frames)"

text \<open>
  What the provider hands out for a series identifier: a table with a single column
  labelled by the identifier, whose dates are unique.
\<close>

definition provider_series :: "string \<Rightarrow> table \<Rightarrow> bool" where
  "provider_series fred_id f \<longleftrightarrow> columns f = [fred_id] \<and> distinct (idx f)"

text \<open>The cells of the single column of a retrieved series.\<close>

definition series_values :: "('i, 'v) frame \<Rightarrow> 'v list" where
  "series_values f = snd (hd (cols f))"

section \<open>The summarizer\<close>

text \<open>
  A cell of the summary table: a number, NaN, a date, or the absent value that
  \<^verbatim>\<open>first_valid_index\<close> returns (\<^verbatim>\<open>None\<close>) for a column without any value.
\<close>

datatype scalar = Num real | NaN | Stamp date | Absent

definition num :: "real option \<Rightarrow> scalar" where
  "num v = (case v of None \<Rightarrow> NaN | Some x \<Rightarrow> Num x)"

definition stamp :: "date option \<Rightarrow> scalar" where
  "stamp v = (case v of None \<Rightarrow> Absent | Some d \<Rightarrow> Stamp d)"

text \<open>\<^verbatim>\<open>.dropna()\<close>: the values present, in row order.\<close>

definition dropna :: "'v option list \<Rightarrow> 'v list" where
  "dropna vs = concat (map (\<lambda>v. case v of None \<Rightarrow> [] | Some x \<Rightarrow> [x]) vs)"

text \<open>
  The statistics of \<^verbatim>\<open>df.describe()\<close>, per column over the values present: count, mean,
  sample standard deviation, minimum, quartiles (linear interpolation) and maximum. A
  statistic of too few values is NaN. Without any column pandas raises
  \<^verbatim>\<open>ValueError("Cannot describe a DataFrame without columns")\<close>.
\<close>

definition mean :: "real list \<Rightarrow> real option" where
  "mean xs = (if xs = [] then None else Some (sum_list xs / real (length xs)))"

definition std :: "real list \<Rightarrow> real option" where
  "std xs =
     (if length xs \<le> 1 then None
      else let m = sum_list xs / real (length xs)
           in Some (sqrt (sum_list (map (\<lambda>x. (x - m)\<^sup>2) xs) / real (length xs - 1))))"

definition quantile :: "real \<Rightarrow> real list \<Rightarrow> real option" where
  "quantile q xs =
     (if xs = [] then None
      else let s = sort xs; pos = real (length xs - 1) * q; lo = nat \<lfloor>pos\<rfloor>;
               hi = min (lo + 1) (length xs - 1)
           in Some (s ! lo + (pos - real lo) * (s ! hi - s ! lo)))"

definition minimum :: "real list \<Rightarrow> real option" where
  "minimum xs = (if xs = [] then None else Some (Min (set xs)))"

definition maximum :: "real list \<Rightarrow> real option" where
  "maximum xs = (if xs = [] then None else Some (Max (set xs)))"

definition describe_column :: "real option list \<Rightarrow> scalar list" where
  "describe_column vs =
     (let xs = dropna vs
      in [Num (real (length xs)), num (mean xs), num (std xs), num (minimum xs),
          num (quantile (1/4) xs), num (quantile (1/2) xs), num (quantile (3/4) xs),
          num (maximum xs)])"

definition describe :: "('i, real option) frame \<Rightarrow> error + (string, scalar) frame" where
  "describe df =
     (if cols df = [] then Inl ValueError
      else Inr \<lparr>idx = [''count'', ''mean'', ''std'', ''min'', ''25%'', ''50%'', ''75%'', ''max''],
                cols = map (\<lambda>(l, vs). (l, describe_column vs)) (cols df)\<rparr>)"

text \<open>\<^verbatim>\<open>.T\<close>: the rows become the columns.\<close>

definition transpose_frame :: "(string, 'v) frame \<Rightarrow> (string, 'v) frame" where
  "transpose_frame f =
     \<lparr>idx = columns f,
      cols = map (\<lambda>(k, name). (name, map (\<lambda>(l, vs). vs ! k) (cols f))) (enumerate 0 (idx f))\<rparr>"

text \<open>
  \<^verbatim>\<open>df.isna().mean()\<close>: per column the share of rows holding no value, NaN for a table
  without rows; \<^verbatim>\<open>* 100\<close> scales every entry of the series.
\<close>

definition isna_mean :: "('i, 'v option) frame \<Rightarrow> (string \<times> real option) list" where
  "isna_mean df =
     map (\<lambda>(l, vs). (l, if vs = [] then None
                         else Some (real (length (filter (\<lambda>v. v = None) vs)) / real (length vs))))
       (cols df)"

definition scale :: "(string \<times> real option) list \<Rightarrow> real \<Rightarrow> (string \<times> real option) list" where
  "scale s k = map (\<lambda>(l, v). (l, map_option (\<lambda>x. x * k) v)) s"

text \<open>The index key of the first, or last, row of a column that holds a value.\<close>

definition first_valid_index :: "'i list \<Rightarrow> 'v option list \<Rightarrow> 'i option" where
  "first_valid_index ix vs =
     (case filter (\<lambda>(d, v). v \<noteq> None) (zip ix vs) of [] \<Rightarrow> None | (d, v) # rest \<Rightarrow> Some d)"

definition last_valid_index :: "'i list \<Rightarrow> 'v option list \<Rightarrow> 'i option" where
  "last_valid_index ix vs =
     (case rev (filter (\<lambda>(d, v). v \<noteq> None) (zip ix vs)) of [] \<Rightarrow> None | (d, v) # rest \<Rightarrow> Some d)"

text \<open>\<^verbatim>\<open>df.apply(lambda col: ...)\<close>: one result per column, keyed by the column's label.\<close>

definition apply_columns :: "('i, 'v) frame \<Rightarrow> ('i list \<Rightarrow> 'v list \<Rightarrow> 'r) \<Rightarrow> (string \<times> 'r) list" where
  "apply_columns df f = map (\<lambda>(l, vs). (l, f (idx df) vs)) (cols df)"

text \<open>
  \<^verbatim>\<open>summary[name] = series\<close>. A series whose index is the table's index is stored as it
  is; any other series is aligned on the table's index by label, which pandas refuses
  when the series holds a label twice. The column replaces the one of the same name or
  is added as the last one.
\<close>

definition put_column :: "('i, 'v) frame \<Rightarrow> string \<Rightarrow> 'v list \<Rightarrow> ('i, 'v) frame" where
  "put_column f name vs =
     (if name \<in> set (columns f)
      then f\<lparr>cols := map (\<lambda>(n, old). (n, if n = name then vs else old)) (cols f)\<rparr>
      else f\<lparr>cols := cols f @ [(name, vs)]\<rparr>)"

definition setitem ::
  "(string, scalar) frame \<Rightarrow> string \<Rightarrow> (string \<times> scalar) list \<Rightarrow>
     error + (string, scalar) frame" where
  "setitem f name s =
     (if map fst s = idx f then Inr (put_column f name (map snd s))
      else if \<not> distinct (map fst s) then Inl ValueError
      else Inr (put_column f name
                  (map (\<lambda>l. case map_of s l of None \<Rightarrow> NaN | Some v \<Rightarrow> v) (idx f))))"

definition as_nums :: "(string \<times> real option) list \<Rightarrow> (string \<times> scalar) list" where
  "as_nums s = map (\<lambda>(l, v). (l, num v)) s"

definition as_stamps :: "(string \<times> date option) list \<Rightarrow> (string \<times> scalar) list" where
  "as_stamps s = map (\<lambda>(l, v). (l, stamp v)) s"

text \<open>\<^verbatim>\<open>summarize_timeseries\<close>, statement by statement.\<close>

definition summarize_timeseries :: "table \<Rightarrow> error + (string, scalar) frame" where
  "summarize_timeseries df =
     bind_result (describe df) (\<lambda>d.
     bind_result (setitem (transpose_frame d) ''missing_pct'' (as_nums (scale (isna_mean df) 100)))
       (\<lambda>summary.
     bind_result (setitem summary ''start_date'' (as_stamps (apply_columns df first_valid_index)))
       (\<lambda>summary.
     setitem summary ''end_date'' (as_stamps (apply_columns df last_valid_index)))))"


text \<open>The summary's entry for a column label, when the summary was produced.\<close>

definition entry :: "('i, 'v) frame \<Rightarrow> 'i \<Rightarrow> string \<Rightarrow> 'v option" where
  "entry f r c = (case column f c of None \<Rightarrow> None | Some vs \<Rightarrow> map_of (zip (idx f) vs) r)"

definition summary_entry :: "table \<Rightarrow> string \<Rightarrow> string \<Rightarrow> scalar option" where
  "summary_entry df l c = (case summarize_timeseries df of Inl e \<Rightarrow> None | Inr s \<Rightarrow> entry s l c)"

text \<open>The share of missing rows of a column, in percent, as the summary reports it.\<close>

definition missing_pct :: "'v option list \<Rightarrow> scalar" where
  "missing_pct vs =
     (if vs = [] then NaN
      else Num (real (length (filter (\<lambda>v. v = None) vs)) / real (length vs) * 100))"

section \<open>Monthly resampling and correlation\<close>

text \<open>
  Modelled from the spec: \<^verbatim>\<open>resample("M")\<close> and the \<^verbatim>\<open>mean()\<close> of its groups are pandas
  code, not part of the sources; the spec has the resampling re-aggregate the observations
  onto a monthly calendar grid by averaging the observations within each month.
  \<^verbatim>\<open>df.resample("M")\<close> groups the rows by calendar month. A month is identified by its
  number \<open>12 * year + month\<close>; the bins are the months from the earliest to the latest date
  of the index, the months in between included, each labelled in pandas by its last day.
  A cell of the grouped table holds the cells of the column whose date falls in the month.
\<close>

definition month_no :: "date \<Rightarrow> nat" where
  "month_no d = (case d of (y, m, dd) \<Rightarrow> 12 * y + m)"

definition resample_M :: "(date, 'v) frame \<Rightarrow> (nat, 'v list) frame" where
  "resample_M df =
     (let ms = map month_no (idx df);
          bins = (if ms = [] then [] else [Min (set ms) ..< Suc (Max (set ms))])
      in \<lparr>idx = bins,
          cols = map (\<lambda>(l, vs). (l, map (\<lambda>b. map snd (filter (\<lambda>(m, v). m = b) (zip ms vs))) bins))
                   (cols df)\<rparr>)"

text \<open>
  Modelled from the spec: \<^verbatim>\<open>.mean()\<close> of the groups, pandas code as well, is the mean of
  the values present in the bin, NaN without any.
\<close>

definition group_mean :: "('i, real option list) frame \<Rightarrow> ('i, real option) frame" where
  "group_mean g =
     \<lparr>idx = idx g, cols = map (\<lambda>(l, cells). (l, map (\<lambda>vs. mean (dropna vs)) cells)) (cols g)\<rparr>"

text \<open>
  Modelled from the spec: \<^verbatim>\<open>DataFrame.corr\<close> is pandas code, not part of the sources; the
  spec has it compute the pairwise Pearson correlation matrix across columns.
  \<^verbatim>\<open>monthly.corr()\<close> is the Pearson correlation of every pair of columns over the rows where
  both hold a value; NaN when there is no such row or when one of the two does not vary
  over them.
\<close>

definition complete_pairs :: "'v option list \<Rightarrow> 'v option list \<Rightarrow> ('v \<times> 'v) list" where
  "complete_pairs xs ys =
     concat (map (\<lambda>(x, y). case (x, y) of (Some a, Some b) \<Rightarrow> [(a, b)] | _ \<Rightarrow> []) (zip xs ys))"

definition pearson :: "real option list \<Rightarrow> real option list \<Rightarrow> real option" where
  "pearson xs ys =
     (let ps = complete_pairs xs ys; n = real (length ps)
      in if ps = [] then None
         else let mx = sum_list (map fst ps) / n; my = sum_list (map snd ps) / n;
                  sxx = sum_list (map (\<lambda>(a, b). (a - mx) * (a - mx)) ps);
                  syy = sum_list (map (\<lambda>(a, b). (b - my) * (b - my)) ps);
                  sxy = sum_list (map (\<lambda>(a, b). (a - mx) * (b - my)) ps);
                  divisor = sqrt (sxx * syy)
              in if divisor = 0 then None else Some (sxy / divisor))"

definition corr :: "('i, real option) frame \<Rightarrow> (string, real option) frame" where
  "corr f =
     \<lparr>idx = columns f,
      cols = map (\<lambda>(l, ys). (l, map (\<lambda>(k, xs). pearson xs ys) (cols f))) (cols f)\<rparr>"

text \<open>
  A table is non-degenerate for the correlation when every column of its monthly means
  holds two different values.
\<close>

definition varies :: "real option list \<Rightarrow> bool" where
  "varies xs = (2 \<le> length (remdups (dropna xs)))"

definition non_degenerate :: "table \<Rightarrow> bool" where
  "non_degenerate df = list_all (\<lambda>(l, xs). varies xs) (cols (group_mean (resample_M df)))"

text \<open>The observations of a column that fall in a calendar month: the values present at
  the dates of that month, in row order.\<close>

definition month_values :: "table \<Rightarrow> string \<Rightarrow> nat \<Rightarrow> real list" where
  "month_values df l b =
     (case column df l of
        None \<Rightarrow> []
      | Some vs \<Rightarrow> dropna (map snd (filter (\<lambda>(d, v). month_no d = b) (zip (idx df) vs))))"

section \<open>Figures\<close>

text \<open>
  A figure is the list of its subplots, top to bottom; a subplot records what was drawn
  on it and how it was labelled. \<^verbatim>\<open>plt.subplots(nrows, 1)\<close> refuses zero rows with a
  ValueError, returns the single subplot itself for one row and an array of subplots for
  more. A subplot is referred to by its position in the figure.
\<close>

datatype artist =
  Line string "(date \<times> real option) list"
| Heatmap "(string, real option) frame"
| Hist "real list"

record axes =
  title :: string
  xlabel :: string
  ylabel :: string
  legend_title :: "string option"
  artists :: "artist list"

record figure =
  subplots_of :: "axes list"

datatype axes_val = Ax nat | AxArray "nat list" | PyList "axes_val list"

definition blank_axes :: axes where
  "blank_axes = \<lparr>title = [], xlabel = [], ylabel = [], legend_title = None, artists = []\<rparr>"

definition subplots :: "nat \<Rightarrow> error + (figure \<times> axes_val)" where
  "subplots nrows =
     (if nrows = 0 then Inl ValueError
      else Inr (\<lparr>subplots_of = replicate nrows blank_axes\<rparr>,
                if nrows = 1 then Ax 0 else AxArray [0..<nrows]))"

text \<open>A method call on a subplot changes that subplot of the figure; an array or a list
  of subplots has no such method.\<close>

definition on_axes :: "figure \<Rightarrow> axes_val \<Rightarrow> (axes \<Rightarrow> axes) \<Rightarrow> error + figure" where
  "on_axes fig ax f =
     (case ax of
        Ax i \<Rightarrow> Inr (fig\<lparr>subplots_of := (subplots_of fig)[i := f (subplots_of fig ! i)]\<rparr>)
      | _ \<Rightarrow> Inl AttributeError)"

text \<open>Iterating, as \<^verbatim>\<open>zip(axes, cols)\<close> does: a single subplot is not iterable.\<close>

definition iterate :: "axes_val \<Rightarrow> error + axes_val list" where
  "iterate a =
     (case a of Ax i \<Rightarrow> Inl TypeError | AxArray is \<Rightarrow> Inr (map Ax is) | PyList vs \<Rightarrow> Inr vs)"

definition draw :: "artist \<Rightarrow> axes \<Rightarrow> axes" where
  "draw a ax = ax\<lparr>artists := artists ax @ [a]\<rparr>"

section \<open>The plotters\<close>

text \<open>
  \<^verbatim>\<open>plot_time_series\<close>: \<^verbatim>\<open>df.plot(ax=ax)\<close> draws one line per column and raises
  \<^verbatim>\<open>TypeError("no numeric data to plot")\<close> for a table without columns.
\<close>

definition df_plot :: "table \<Rightarrow> figure \<Rightarrow> axes_val \<Rightarrow> error + figure" where
  "df_plot df fig ax =
     (if cols df = [] then Inl TypeError
      else on_axes fig ax
             (\<lambda>a. a\<lparr>artists := artists a @ map (\<lambda>(l, vs). Line l (zip (idx df) vs)) (cols df)\<rparr>))"

definition plot_time_series :: "table \<Rightarrow> string \<Rightarrow> error + figure" where
  "plot_time_series df ttl =
     bind_result (subplots 1) (\<lambda>(fig, ax).
     bind_result (df_plot df fig ax) (\<lambda>fig.
     bind_result (on_axes fig ax (\<lambda>a. a\<lparr>title := ttl\<rparr>)) (\<lambda>fig.
     bind_result (on_axes fig ax (\<lambda>a. a\<lparr>xlabel := ''Date''\<rparr>)) (\<lambda>fig.
     bind_result (on_axes fig ax (\<lambda>a. a\<lparr>ylabel := ''Value''\<rparr>)) (\<lambda>fig.
     on_axes fig ax (\<lambda>a. a\<lparr>legend_title := Some ''Series''\<rparr>))))))"

text \<open>
  \<^verbatim>\<open>plot_correlation_heatmap\<close>: \<^verbatim>\<open>sns.heatmap\<close> draws the matrix it is given and fails on
  an empty one (the colour range of no cell at all).
\<close>

definition heatmap :: "(string, real option) frame \<Rightarrow> figure \<Rightarrow> axes_val \<Rightarrow> error + figure" where
  "heatmap c fig ax = (if cols c = [] then Inl ValueError else on_axes fig ax (draw (Heatmap c)))"

definition plot_correlation_heatmap :: "table \<Rightarrow> string \<Rightarrow> error + figure" where
  "plot_correlation_heatmap df ttl =
     (let monthly = group_mean (resample_M df);
          corr = corr monthly
      in bind_result (subplots 1) (\<lambda>(fig, ax).
         bind_result (heatmap corr fig ax) (\<lambda>fig.
         on_axes fig ax (\<lambda>a. a\<lparr>title := ttl\<rparr>))))"

text \<open>
  \<^verbatim>\<open>plot_distribution\<close>: \<^verbatim>\<open>df[col]\<close> raises KeyError for a label the table does not have;
  \<^verbatim>\<open>sns.histplot(data, kde=True, ax=ax)\<close> draws the histogram of the data with its density
  curve on the subplot.
\<close>

fun distribution_loop :: "table \<Rightarrow> (axes_val \<times> string) list \<Rightarrow> figure \<Rightarrow> error + figure" where
  "distribution_loop df [] fig = Inr fig"
| "distribution_loop df ((ax, col) # rest) fig =
     (case column df col of
        None \<Rightarrow> Inl KeyError
      | Some vs \<Rightarrow>
          bind_result (on_axes fig ax (draw (Hist (dropna vs)))) (\<lambda>fig.
          bind_result (on_axes fig ax (\<lambda>a. a\<lparr>title := ''Distribution of '' @ col\<rparr>)) (\<lambda>fig.
          distribution_loop df rest fig)))"

definition plot_distribution :: "table \<Rightarrow> string list option \<Rightarrow> error + figure" where
  "plot_distribution df cols_arg =
     (let selected = (case cols_arg of Some cs \<Rightarrow> cs | None \<Rightarrow> columns df)
      in bind_result (subplots (length selected)) (\<lambda>(fig, axes).
         let axes = (if length selected = 1 then PyList [axes] else axes)
         in bind_result (iterate axes) (\<lambda>items. distribution_loop df (zip items selected) fig)))"

text \<open>The subplot that the distribution plotter is to produce for a column: the histogram
  of the values present, titled with the column's label.\<close>

definition panel :: "table \<Rightarrow> string \<Rightarrow> axes" where
  "panel df c =
     (case column df c of
        None \<Rightarrow> blank_axes
      | Some vs \<Rightarrow> blank_axes\<lparr>artists := [Hist (dropna vs)], title := ''Distribution of '' @ c\<rparr>)"

section \<open>The orchestrator\<close>

text \<open>
  \<^verbatim>\<open>run_quick_eda\<close> threads no value of its own through the steps, but it acts on the
  world: a session records the steps completed so far, in order, and the files written.
  A step that raises ends the run; the session it leaves behind is what had been done
  before. \<^verbatim>\<open>to_csv\<close> and \<^verbatim>\<open>savefig\<close> create the file when the file system accepts the
  path and raise otherwise.
\<close>

datatype event = Fetch | Summarize | PlotTimeSeries | PlotCorrelation | PlotDistribution
  | Wrote string | Printed string

datatype artifact = Csv "(string, scalar) frame" | Png figure nat

record session =
  log :: "event list"
  files :: "(string \<times> artifact) list"

type_synonym 'a step = "session \<Rightarrow> session \<times> (error + 'a)"

definition then_step :: "'a step \<Rightarrow> ('a \<Rightarrow> 'b step) \<Rightarrow> 'b step" where
  "then_step m f s = (case m s of (s', Inl e) \<Rightarrow> (s', Inl e) | (s', Inr x) \<Rightarrow> f x s')"

definition call :: "event \<Rightarrow> error + 'a \<Rightarrow> 'a step" where
  "call ev r s = (case r of Inl e \<Rightarrow> (s, Inl e) | Inr x \<Rightarrow> (s\<lparr>log := log s @ [ev]\<rparr>, Inr x))"

definition write_file :: "world \<Rightarrow> string \<Rightarrow> artifact \<Rightarrow> unit step" where
  "write_file w path a s =
     (if writable w path
      then (s\<lparr>log := log s @ [Wrote path], files := files s @ [(path, a)]\<rparr>, Inr ())
      else (s, Inl OSError))"

definition print :: "string \<Rightarrow> unit step" where
  "print msg s = (s\<lparr>log := log s @ [Printed msg]\<rparr>, Inr ())"

definition fred_series :: "(string \<times> string) list" where
  "fred_series =
     [(''cpi'', ''CPIAUCSL''), (''unemployment_rate'', ''UNRATE''),
      (''fed_funds_rate'', ''FEDFUNDS''), (''sp500'', ''SP500'')]"

definition run_quick_eda :: "world \<Rightarrow> session \<times> (error + unit)" where
  "run_quick_eda w =
     then_step (call Fetch (fetch_fred_series w fred_series ''2010-01-01'' None)) (\<lambda>df.
     then_step (call Summarize (summarize_timeseries df)) (\<lambda>summary.
     then_step (write_file w ''data/processed/summary.csv'' (Csv summary)) (\<lambda>u.
     then_step (call PlotTimeSeries (plot_time_series df ''Macro & Market Time Series'')) (\<lambda>fig1.
     then_step (write_file w ''figures/time_series.png'' (Png fig1 200)) (\<lambda>u.
     then_step (call PlotCorrelation (plot_correlation_heatmap df ''Correlation (monthly freq)''))
       (\<lambda>fig2.
     then_step (write_file w ''figures/correlation.png'' (Png fig2 200)) (\<lambda>u.
     then_step (call PlotDistribution
        (plot_distribution df (Some [''cpi'', ''unemployment_rate'', ''fed_funds_rate''])))
       (\<lambda>fig3.
     then_step (write_file w ''figures/distributions.png'' (Png fig3 200)) (\<lambda>u.
     print ''Exploratory analysis complete. Outputs saved to data/processed and figures/'')))))))))
       \<lparr>log = [], files = []\<rparr>"

text \<open>The steps of a complete run, in order.\<close>

definition full_log :: "event list" where
  "full_log =
     [Fetch, Summarize, Wrote ''data/processed/summary.csv'',
      PlotTimeSeries, Wrote ''figures/time_series.png'',
      PlotCorrelation, Wrote ''figures/correlation.png'',
      PlotDistribution, Wrote ''figures/distributions.png'',
      Printed ''Exploratory analysis complete. Outputs saved to data/processed and figures/'']"

text \<open>The paths of the files a log says were written.\<close>

definition written :: "event list \<Rightarrow> string list" where
  "written evs = concat (map (\<lambda>e. case e of Wrote p \<Rightarrow> [p] | _ \<Rightarrow> []) evs)"

text \<open>The paths of the four output files.\<close>

definition output_paths :: "string list" where
  "output_paths =
     [''data/processed/summary.csv'', ''figures/time_series.png'', ''figures/correlation.png'',
      ''figures/distributions.png'']"

section \<open>Objects and references\<close>

text \<open>
  In the program a table is an object that the functions receive by reference, and an
  assignment such as \<^verbatim>\<open>summary["missing_pct"] = ...\<close> changes an object in place. To say
  which object a statement changes, the functions that take the merged table are given a
  second time over a store of objects: a reference is a position in the store, a library
  call that returns a table or a figure allocates a new object, and a statement that
  assigns into an object or draws on a figure updates the store at that reference. Every
  statement reads its operands from the store as it is at that point.
\<close>

datatype object =
  Table table
| Summary "(string, scalar) frame"
| Monthly "(nat, real option) frame"
| Corr "(string, real option) frame"
| Values "real list"
| Fig figure

type_synonym store = "object list"

definition alloc :: "store \<Rightarrow> object \<Rightarrow> nat \<times> store" where
  "alloc h v = (length h, h @ [v])"

definition table_at :: "store \<Rightarrow> nat \<Rightarrow> error + table" where
  "table_at h r =
     (if r < length h then (case h ! r of Table t \<Rightarrow> Inr t | _ \<Rightarrow> Inl TypeError)
      else Inl TypeError)"

definition monthly_at :: "store \<Rightarrow> nat \<Rightarrow> error + (nat, real option) frame" where
  "monthly_at h r =
     (if r < length h then (case h ! r of Monthly t \<Rightarrow> Inr t | _ \<Rightarrow> Inl TypeError)
      else Inl TypeError)"

definition corr_at :: "store \<Rightarrow> nat \<Rightarrow> error + (string, real option) frame" where
  "corr_at h r =
     (if r < length h then (case h ! r of Corr t \<Rightarrow> Inr t | _ \<Rightarrow> Inl TypeError)
      else Inl TypeError)"

definition values_at :: "store \<Rightarrow> nat \<Rightarrow> error + real list" where
  "values_at h r =
     (if r < length h then (case h ! r of Values xs \<Rightarrow> Inr xs | _ \<Rightarrow> Inl TypeError)
      else Inl TypeError)"

text \<open>\<^verbatim>\<open>summary[name] = series\<close> on the object behind a reference.\<close>

definition setitem_in ::
  "store \<Rightarrow> nat \<Rightarrow> string \<Rightarrow> (string \<times> scalar) list \<Rightarrow> error + store" where
  "setitem_in h r name s =
     (if r < length h
      then (case h ! r of
              Summary f \<Rightarrow> bind_result (setitem f name s) (\<lambda>f'. Inr (h[r := Summary f']))
            | _ \<Rightarrow> Inl TypeError)
      else Inl TypeError)"

text \<open>A drawing or labelling call on the figure behind a reference.\<close>

definition draw_in :: "store \<Rightarrow> nat \<Rightarrow> (figure \<Rightarrow> error + figure) \<Rightarrow> error + store" where
  "draw_in h r g =
     (if r < length h
      then (case h ! r of
              Fig f \<Rightarrow> bind_result (g f) (\<lambda>f'. Inr (h[r := Fig f']))
            | _ \<Rightarrow> Inl TypeError)
      else Inl TypeError)"

definition summarize_timeseries_in :: "store \<Rightarrow> nat \<Rightarrow> error + (nat \<times> store)" where
  "summarize_timeseries_in h df =
     bind_result (table_at h df) (\<lambda>t.
     bind_result (describe t) (\<lambda>d.
     (case alloc h (Summary (transpose_frame d)) of (summary, h) \<Rightarrow>
     bind_result (table_at h df) (\<lambda>t.
     bind_result (setitem_in h summary ''missing_pct'' (as_nums (scale (isna_mean t) 100))) (\<lambda>h.
     bind_result (table_at h df) (\<lambda>t.
     bind_result (setitem_in h summary ''start_date''
                    (as_stamps (apply_columns t first_valid_index))) (\<lambda>h.
     bind_result (table_at h df) (\<lambda>t.
     bind_result (setitem_in h summary ''end_date''
                    (as_stamps (apply_columns t last_valid_index))) (\<lambda>h.
     Inr (summary, h))))))))))"

definition plot_time_series_in :: "store \<Rightarrow> nat \<Rightarrow> string \<Rightarrow> error + (nat \<times> store)" where
  "plot_time_series_in h df ttl =
     bind_result (subplots 1) (\<lambda>(blank, ax).
     (case alloc h (Fig blank) of (fig, h) \<Rightarrow>
     bind_result (table_at h df) (\<lambda>t.
     bind_result (draw_in h fig (\<lambda>f. df_plot t f ax)) (\<lambda>h.
     bind_result (draw_in h fig (\<lambda>f. on_axes f ax (\<lambda>a. a\<lparr>title := ttl\<rparr>))) (\<lambda>h.
     bind_result (draw_in h fig (\<lambda>f. on_axes f ax (\<lambda>a. a\<lparr>xlabel := ''Date''\<rparr>))) (\<lambda>h.
     bind_result (draw_in h fig (\<lambda>f. on_axes f ax (\<lambda>a. a\<lparr>ylabel := ''Value''\<rparr>))) (\<lambda>h.
     bind_result (draw_in h fig (\<lambda>f. on_axes f ax (\<lambda>a. a\<lparr>legend_title := Some ''Series''\<rparr>)))
       (\<lambda>h. Inr (fig, h)))))))))"

definition plot_correlation_heatmap_in :: "store \<Rightarrow> nat \<Rightarrow> string \<Rightarrow> error + (nat \<times> store)" where
  "plot_correlation_heatmap_in h df ttl =
     bind_result (table_at h df) (\<lambda>t.
     (case alloc h (Monthly (group_mean (resample_M t))) of (monthly, h) \<Rightarrow>
     bind_result (monthly_at h monthly) (\<lambda>m.
     (case alloc h (Corr (corr m)) of (corr', h) \<Rightarrow>
     bind_result (subplots 1) (\<lambda>(blank, ax).
     (case alloc h (Fig blank) of (fig, h) \<Rightarrow>
     bind_result (corr_at h corr') (\<lambda>c.
     bind_result (draw_in h fig (\<lambda>f. heatmap c f ax)) (\<lambda>h.
     bind_result (draw_in h fig (\<lambda>f. on_axes f ax (\<lambda>a. a\<lparr>title := ttl\<rparr>))) (\<lambda>h.
     Inr (fig, h))))))))))"

fun distribution_loop_in ::
  "nat \<Rightarrow> (axes_val \<times> string) list \<Rightarrow> nat \<Rightarrow> store \<Rightarrow> error + store" where
  "distribution_loop_in df [] fig h = Inr h"
| "distribution_loop_in df ((ax, col) # rest) fig h =
     bind_result (table_at h df) (\<lambda>t.
     (case column t col of
        None \<Rightarrow> Inl KeyError
      | Some vs \<Rightarrow>
          (case alloc h (Values (dropna vs)) of (data, h) \<Rightarrow>
          bind_result (values_at h data) (\<lambda>xs.
          bind_result (draw_in h fig (\<lambda>f. on_axes f ax (draw (Hist xs)))) (\<lambda>h.
          bind_result (draw_in h fig
              (\<lambda>f. on_axes f ax (\<lambda>a. a\<lparr>title := ''Distribution of '' @ col\<rparr>))) (\<lambda>h.
          distribution_loop_in df rest fig h))))))"

definition plot_distribution_in ::
  "store \<Rightarrow> nat \<Rightarrow> string list option \<Rightarrow> error + (nat \<times> store)" where
  "plot_distribution_in h df cols_arg =
     bind_result (table_at h df) (\<lambda>t.
     (let selected = (case cols_arg of Some cs \<Rightarrow> cs | None \<Rightarrow> columns t)
      in bind_result (subplots (length selected)) (\<lambda>(blank, axes).
         (case alloc h (Fig blank) of (fig, h) \<Rightarrow>
          let axes = (if length selected = 1 then PyList [axes] else axes)
          in bind_result (iterate axes) (\<lambda>items.
             bind_result (distribution_loop_in df (zip items selected) fig h) (\<lambda>h.
             Inr (fig, h)))))))"

text \<open>A later store preserves an earlier one when every object of the earlier store is
  still there, at its reference and unchanged.\<close>

definition preserves :: "store \<Rightarrow> store \<Rightarrow> bool" where
  "preserves h h' \<longleftrightarrow> length h \<le> length h' \<and> take (length h) h' = h"

section \<open>Example worlds\<close>

text \<open>
  A provider that holds two short series over the first three days of 2020; the second
  one has no observation on the second day.
\<close>

definition demo_id1 :: table where
  "demo_id1 = \<lparr>idx = [(2020, 1, 1), (2020, 1, 2), (2020, 1, 3)],
               cols = [(''ID1'', [Some 1, Some 2, Some 3])]\<rparr>"

definition demo_id2 :: table where
  "demo_id2 = \<lparr>idx = [(2020, 1, 1), (2020, 1, 3)], cols = [(''ID2'', [Some 10, Some 30])]\<rparr>"

definition demo_reader :: "string \<Rightarrow> string \<Rightarrow> string \<Rightarrow> error + table" where
  "demo_reader fred_id start end' =
     (if fred_id = ''ID1'' then Inr demo_id1
      else if fred_id = ''ID2'' then Inr demo_id2
      else Inl ProviderError)"

definition demo_world :: world where
  "demo_world = \<lparr>DataReader = demo_reader, today = ''2020-01-03'', writable = (\<lambda>p. True)\<rparr>"

definition demo_series :: "(string \<times> string) list" where
  "demo_series = [(''a'', ''ID1''), (''b'', ''ID2'')]"

definition demo_retrieved :: "string \<Rightarrow> table" where
  "demo_retrieved i = (if i = ''ID1'' then demo_id1 else demo_id2)"

text \<open>The table the fetcher merges from the two series.\<close>

definition demo_table :: table where
  "demo_table = \<lparr>idx = [(2020, 1, 1), (2020, 1, 2), (2020, 1, 3)],
       cols = [(''a'', [Some 1, Some 2, Some 3]), (''b'', [Some 10, None, Some 30])]\<rparr>"

text \<open>The same table with a third column that holds no value at all.\<close>

definition gaps_table :: table where
  "gaps_table = \<lparr>idx = [(2020, 1, 1), (2020, 1, 2), (2020, 1, 3)],
       cols = [(''a'', [Some 1, Some 2, Some 3]), (''b'', [Some 10, None, Some 30]),
               (''c'', [None, None, None])]\<rparr>"

text \<open>A table over two months: two observations in January 2020, one in February.\<close>

definition two_months :: table where
  "two_months = \<lparr>idx = [(2020, 1, 10), (2020, 1, 20), (2020, 2, 5)],
       cols = [(''a'', [Some 1, Some 2, Some 4]), (''b'', [Some 8, Some 4, Some 1])]\<rparr>"

text \<open>
  A provider that holds the four series of the orchestrator, two monthly observations
  each, and file systems that accept every path, or every path outside \<^verbatim>\<open>figures/\<close>.
\<close>

definition fred_frame :: "string \<Rightarrow> real \<Rightarrow> real \<Rightarrow> table" where
  "fred_frame fred_id x y = \<lparr>idx = [(2010, 1, 1), (2010, 2, 1)], cols = [(fred_id, [Some x, Some y])]\<rparr>"

definition fred_retrieved :: "string \<Rightarrow> table" where
  "fred_retrieved i =
     (if i = ''CPIAUCSL'' then fred_frame i 217 218
      else if i = ''UNRATE'' then fred_frame i 10 9
      else if i = ''FEDFUNDS'' then fred_frame i 1 2
      else fred_frame i 1100 1150)"

definition fred_reader :: "string \<Rightarrow> string \<Rightarrow> string \<Rightarrow> error + table" where
  "fred_reader fred_id start end' =
     (if fred_id \<in> set (map snd fred_series) then Inr (fred_retrieved fred_id)
      else Inl ProviderError)"

definition fred_world :: world where
  "fred_world = \<lparr>DataReader = fred_reader, today = ''2010-02-01'', writable = (\<lambda>p. True)\<rparr>"

definition no_figures_world :: world where
  "no_figures_world =
     \<lparr>DataReader = fred_reader, today = ''2010-02-01'',
      writable = (\<lambda>p. take 8 p \<noteq> ''figures/'')\<rparr>"

text \<open>The table the fetcher merges from the four series.\<close>

definition fred_table :: table where
  "fred_table = \<lparr>idx = [(2010, 1, 1), (2010, 2, 1)],
       cols = [(''cpi'', [Some 217, Some 218]), (''unemployment_rate'', [Some 10, Some 9]),
               (''fed_funds_rate'', [Some 1, Some 2]), (''sp500'', [Some 1100, Some 1150])]\<rparr>"

section \<open>Properties of the fetcher\<close>

text \<open>
  Claim C9. For the empty mapping the fetcher raises: the loop retrieves nothing and the
  concatenation of zero frames is refused with a ValueError, whatever the provider and
  the date range are.
\<close>

theorem fetch_fred_series_empty_raises:
  "fetch_fred_series w [] start end' = Inl ValueError"
  by (simp add: fetch_fred_series_def concat_axis1_def)

lemma provider_seriesD:
  assumes "provider_series i f"
  shows "cols f = [(i, series_values f)]" "distinct (idx f)"
  using assms
  by (cases "cols f"; auto simp: provider_series_def series_values_def columns_def)+

lemma fetch_loop_all_retrieved:
  assumes "\<And>l i. (l, i) \<in> set series \<Longrightarrow> rd i start e = Inr (g i)"
  shows "fetch_loop rd series start e acc =
           Inr (acc @ map (\<lambda>(l, i). rename_columns i l (g i)) series)"
  using assms
proof (induction series arbitrary: acc)
  case Nil
  then show ?case by simp
next
  case (Cons a series)
  obtain l i where a: "a = (l, i)" by (cases a)
  have "rd i start e = Inr (g i)" using Cons.prems[of l i] a by simp
  moreover have "fetch_loop rd series start e (acc @ [rename_columns i l (g i)]) =
      Inr ((acc @ [rename_columns i l (g i)]) @ map (\<lambda>(l, i). rename_columns i l (g i)) series)"
    by (rule Cons.IH) (use Cons.prems in auto)
  ultimately show ?case using a by simp
qed

lemma rename_provider_series:
  assumes "provider_series i f"
  shows "cols (rename_columns i l f) = [(l, series_values f)]"
    "idx (rename_columns i l f) = idx f"
  using provider_seriesD(1)[OF assms] by (simp_all add: rename_columns_def)

lemma map_of_labelled:
  assumes "distinct (map fst series)" "(l, i) \<in> set series"
  shows "map_of (map (\<lambda>(l, i). (l, F l i)) series) l = Some (F l i)"
  using assms
  by (induction series) (auto simp: rev_image_eqI)

lemma cols_side_by_side:
  assumes "\<forall>(l, i) \<in> set series. provider_series i (g i)"
  shows "concat (map cols (map (\<lambda>(l, i). rename_columns i l (g i)) series)) =
           map (\<lambda>(l, i). (l, series_values (g i))) series"
  using assms
  by (induction series) (auto simp: rename_provider_series)

lemma cols_aligned:
  assumes "\<forall>(l, i) \<in> set series. provider_series i (g i)"
  shows "concat (map (\<lambda>f. map (\<lambda>(n, vs). (n, reindex (idx f) ix vs)) (cols f))
                  (map (\<lambda>(l, i). rename_columns i l (g i)) series)) =
           map (\<lambda>(l, i). (l, reindex (idx (g i)) ix (series_values (g i)))) series"
  using assms
  by (induction series) (auto simp: rename_provider_series)

lemma map_of_zip_reindex:
  "map_of (zip ix (reindex old ix vs)) d =
     (if d \<in> set ix then Some (case map_of (zip old vs) d of None \<Rightarrow> None | Some v \<Rightarrow> v) else None)"
  by (simp add: reindex_def map_of_zip_map)

lemma idx_retrieved:
  "map idx (map (\<lambda>(l, i). rename_columns i l (g i)) series) = map (\<lambda>(l, i). idx (g i)) series"
  by (induction series) (auto simp: rename_columns_def)

text \<open>
  Claim C1. For a non-empty mapping with unique labels whose series the provider hands
  out (\<open>g i\<close> is the series retrieved for identifier \<open>i\<close>), the fetcher returns a table
  that has exactly the labels of the mapping as its columns, in the order of the mapping;
  its dates are the union of the dates of the retrieved series; and the column of a label
  holds, at every date, the value of the label's series at that date, so no value at a
  date the series does not have.
\<close>

theorem fetch_fred_series_columns_and_index:
  assumes nonempty: "series \<noteq> []"
    and labels: "distinct (map fst series)"
    and retrieved: "\<forall>(l, i) \<in> set series.
          DataReader w i start (resolve_end w end') = Inr (g i) \<and> provider_series i (g i)"
  shows "\<exists>df. fetch_fred_series w series start end' = Inr df
           \<and> columns df = map fst series
           \<and> set (idx df) = (\<Union>(l, i) \<in> set series. set (idx (g i)))
           \<and> (\<forall>(l, i) \<in> set series. \<forall>d. cell df l d = cell (g i) i d)"
proof -
  let ?fs = "map (\<lambda>(l, i). rename_columns i l (g i)) series"
  have rd: "DataReader w i start (resolve_end w end') = Inr (g i)" if "(l, i) \<in> set series" for l i
    using retrieved that by auto
  have ps: "\<forall>(l, i) \<in> set series. provider_series i (g i)"
    using retrieved by auto
  have loop: "fetch_loop (DataReader w) series start (resolve_end w end') [] = Inr ?fs"
    using fetch_loop_all_retrieved[of series "DataReader w" start "resolve_end w end'" g "[]"] rd by simp
  have fs_ne: "?fs \<noteq> []" using nonempty by simp
  have cell_src: "cell (g i) i d =
      (case map_of (zip (idx (g i)) (series_values (g i))) d of None \<Rightarrow> None | Some v \<Rightarrow> v)"
    if "(l, i) \<in> set series" for l i d
    using provider_seriesD(1)[of i "g i"] ps that by (auto simp: cell_def column_def)
  show ?thesis
  proof (cases "list_all (\<lambda>f. idx f = idx (hd ?fs)) ?fs")
    case True
    define df :: table where "df = \<lparr>idx = idx (hd ?fs), cols = concat (map cols ?fs)\<rparr>"
    have res: "fetch_fred_series w series start end' = Inr df"
      using loop fs_ne True by (simp add: fetch_fred_series_def concat_axis1_def df_def)
    have same: "idx (g i) = idx df" if "(l, i) \<in> set series" for l i
    proof -
      have "rename_columns i l (g i) \<in> set ?fs" using that by force
      then have "idx (rename_columns i l (g i)) = idx (hd ?fs)"
        using True unfolding list_all_iff by blast
      then show ?thesis by (simp add: rename_columns_def df_def)
    qed
    have c: "cols df = map (\<lambda>(l, i). (l, series_values (g i))) series"
      using cols_side_by_side[OF ps] by (simp add: df_def)
    have 1: "columns df = map fst series"
      by (simp add: columns_def c case_prod_unfold comp_def)
    have 2: "set (idx df) = (\<Union>(l, i) \<in> set series. set (idx (g i)))"
    proof -
      obtain l i where "(l, i) \<in> set series" using nonempty by (cases series) auto
      then show ?thesis using same by fastforce
    qed
    have 3: "cell df l d = cell (g i) i d" if "(l, i) \<in> set series" for l i d
    proof -
      have "column df l = Some (series_values (g i))"
        unfolding column_def c using map_of_labelled[OF labels that, of "\<lambda>l i. series_values (g i)"] .
      then show ?thesis using cell_src[OF that] same[OF that] by (simp add: cell_def)
    qed
    show ?thesis using res 1 2 3 by blast
  next
    case False
    define ix where "ix = sort (remdups (concat (map idx ?fs)))"
    define df :: table where "df = \<lparr>idx = ix,
       cols = concat (map (\<lambda>f. map (\<lambda>(n, vs). (n, reindex (idx f) ix vs)) (cols f)) ?fs)\<rparr>"
    have nodup: "\<not> list_ex (\<lambda>f. \<not> distinct (idx f)) ?fs"
      using ps provider_seriesD(2) by (fastforce simp: list_ex_iff rename_columns_def)
    have res: "fetch_fred_series w series start end' = Inr df"
      using loop fs_ne False nodup
      by (simp add: fetch_fred_series_def concat_axis1_def df_def ix_def Let_def)
    have c: "cols df = map (\<lambda>(l, i). (l, reindex (idx (g i)) ix (series_values (g i)))) series"
      using cols_aligned[OF ps] by (simp add: df_def)
    have 1: "columns df = map fst series"
      by (simp add: columns_def c case_prod_unfold comp_def)
    have ixset: "set ix = (\<Union>(l, i) \<in> set series. set (idx (g i)))"
      unfolding ix_def idx_retrieved by auto
    then have 2: "set (idx df) = (\<Union>(l, i) \<in> set series. set (idx (g i)))"
      by (simp add: df_def)
    have 3: "cell df l d = cell (g i) i d" if "(l, i) \<in> set series" for l i d
    proof -
      have col: "column df l = Some (reindex (idx (g i)) ix (series_values (g i)))"
        unfolding column_def c
        using map_of_labelled[OF labels that, of "\<lambda>l i. reindex (idx (g i)) ix (series_values (g i))"] .
      have absent: "map_of (zip (idx (g i)) (series_values (g i))) d = None" if "d \<notin> set ix"
      proof -
        have "d \<notin> set (idx (g i))" using that \<open>(l, i) \<in> set series\<close> ixset by auto
        then show ?thesis
          by (metis map_of_eq_None_iff set_zip_leftD prod.collapse imageE)
      qed
      show ?thesis
        using col cell_src[OF that] absent
        by (simp add: cell_def df_def map_of_zip_reindex)
    qed
    show ?thesis using res 1 2 3 by blast
  qed
qed


theorem fetch_fred_series_columns_and_index_witness:
  "\<exists>df. fetch_fred_series demo_world demo_series ''2020-01-01'' None = Inr df
     \<and> columns df = [''a'', ''b'']
     \<and> set (idx df) = {(2020, 1, 1), (2020, 1, 2), (2020, 1, 3)}
     \<and> cell df ''a'' (2020, 1, 2) = Some 2
     \<and> cell df ''b'' (2020, 1, 2) = None
     \<and> cell df ''b'' (2020, 1, 3) = Some 30"
proof -
  have h1: "demo_series \<noteq> []" by (simp add: demo_series_def)
  have h2: "distinct (map fst demo_series)" by (simp add: demo_series_def)
  have h3: "\<forall>(l, i) \<in> set demo_series.
      DataReader demo_world i ''2020-01-01'' (resolve_end demo_world None) = Inr (demo_retrieved i)
      \<and> provider_series i (demo_retrieved i)"
    by (simp add: demo_series_def demo_world_def demo_reader_def demo_retrieved_def
        provider_series_def columns_def demo_id1_def demo_id2_def)
  have c1: "cell demo_id1 ''ID1'' (2020, 1, 2) = Some 2"
    by (simp add: cell_def column_def demo_id1_def)
  have c2: "cell demo_id2 ''ID2'' (2020, 1, 2) = None"
    by (simp add: cell_def column_def demo_id2_def)
  have c3: "cell demo_id2 ''ID2'' (2020, 1, 3) = Some 30"
    by (simp add: cell_def column_def demo_id2_def)
  have ix: "(\<Union>(l, i) \<in> set demo_series. set (idx (demo_retrieved i))) =
      {(2020, 1, 1), (2020, 1, 2), (2020, 1, 3)}"
    by (auto simp: demo_series_def demo_retrieved_def demo_id1_def demo_id2_def)
  from fetch_fred_series_columns_and_index[OF h1 h2 h3]
  obtain df where df: "fetch_fred_series demo_world demo_series ''2020-01-01'' None = Inr df"
    "columns df = map fst demo_series"
    "set (idx df) = (\<Union>(l, i) \<in> set demo_series. set (idx (demo_retrieved i)))"
    "\<forall>(l, i) \<in> set demo_series. \<forall>d. cell df l d = cell (demo_retrieved i) i d"
    by blast
  have "cell df ''a'' (2020, 1, 2) = Some 2" "cell df ''b'' (2020, 1, 2) = None"
    "cell df ''b'' (2020, 1, 3) = Some 30"
    using df(4) c1 c2 c3 by (simp_all add: demo_series_def demo_retrieved_def)
  then show ?thesis using df(1,2,3) ix by (auto simp: demo_series_def)
qed

section \<open>Properties of the summarizer\<close>

lemma fst_as_nums: "map fst (as_nums (scale (isna_mean df) k)) = columns df"
  by (simp add: as_nums_def scale_def isna_mean_def columns_def case_prod_unfold comp_def)

lemma snd_as_nums: "map snd (as_nums (scale (isna_mean df) 100)) = map (\<lambda>(l, vs). missing_pct vs) (cols df)"
  by (simp add: as_nums_def scale_def isna_mean_def missing_pct_def num_def case_prod_unfold comp_def)

lemma fst_as_stamps: "map fst (as_stamps (apply_columns df f)) = columns df"
  by (simp add: as_stamps_def apply_columns_def columns_def case_prod_unfold comp_def)

lemma snd_as_stamps:
  "map snd (as_stamps (apply_columns df f)) = map (\<lambda>(l, vs). stamp (f (idx df) vs)) (cols df)"
  by (simp add: as_stamps_def apply_columns_def case_prod_unfold comp_def)

lemma describe_T:
  assumes "cols df \<noteq> []"
  shows "\<exists>d. describe df = Inr d \<and> idx (transpose_frame d) = columns df
     \<and> columns (transpose_frame d) = [''count'', ''mean'', ''std'', ''min'', ''25%'', ''50%'', ''75%'', ''max'']"
  using assms
  by (simp add: describe_def transpose_frame_def columns_def case_prod_unfold comp_def)

lemma summarize_timeseries_result:
  assumes "cols df \<noteq> []"
  shows "\<exists>d. describe df = Inr d \<and> summarize_timeseries df =
     Inr \<lparr>idx = columns df,
          cols = cols (transpose_frame d) @
            [(''missing_pct'', map (\<lambda>(l, vs). missing_pct vs) (cols df)),
             (''start_date'', map (\<lambda>(l, vs). stamp (first_valid_index (idx df) vs)) (cols df)),
             (''end_date'', map (\<lambda>(l, vs). stamp (last_valid_index (idx df) vs)) (cols df))]\<rparr>"
proof -
  from describe_T[OF assms] obtain d where d: "describe df = Inr d"
    "idx (transpose_frame d) = columns df"
    "columns (transpose_frame d) = [''count'', ''mean'', ''std'', ''min'', ''25%'', ''50%'', ''75%'', ''max'']"
    by blast
  obtain c where t: "transpose_frame d = \<lparr>idx = columns df, cols = c\<rparr>"
    using d(2) by (cases "transpose_frame d") auto
  have c: "map fst c = [''count'', ''mean'', ''std'', ''min'', ''25%'', ''50%'', ''75%'', ''max'']"
    using d(3) t by (simp add: columns_def)
  show ?thesis
    using d(1) c
    by (simp add: summarize_timeseries_def bind_result_def t setitem_def put_column_def
        fst_as_nums snd_as_nums fst_as_stamps snd_as_stamps columns_def)
qed

lemma summarize_timeseries_columns:
  assumes "cols df \<noteq> []"
  shows "\<exists>c. map fst c = [''count'', ''mean'', ''std'', ''min'', ''25%'', ''50%'', ''75%'', ''max'']
     \<and> summarize_timeseries df =
     Inr \<lparr>idx = columns df,
          cols = c @
            [(''missing_pct'', map (\<lambda>(l, vs). missing_pct vs) (cols df)),
             (''start_date'', map (\<lambda>(l, vs). stamp (first_valid_index (idx df) vs)) (cols df)),
             (''end_date'', map (\<lambda>(l, vs). stamp (last_valid_index (idx df) vs)) (cols df))]\<rparr>"
proof -
  from summarize_timeseries_result[OF assms] describe_T[OF assms]
  show ?thesis by (auto simp: columns_def)
qed

lemma all_missing:
  assumes "length (filter (\<lambda>v. v = None) vs) = length vs"
  shows "\<forall>v \<in> set vs. v = None"
proof -
  have "length (filter (\<lambda>v. v \<noteq> None) vs) = 0"
    using sum_length_filter_compl[of "\<lambda>v. v = None" vs] assms by simp
  then show ?thesis by (simp add: filter_empty_conv)
qed

lemma no_valid_index:
  assumes "\<forall>v \<in> set vs. v = None"
  shows "first_valid_index ix vs = None" "last_valid_index ix vs = None"
proof -
  have "filter (\<lambda>(d, v). v \<noteq> None) (zip ix vs) = []"
    using assms by (auto simp: filter_empty_conv dest: set_zip_rightD)
  then show "first_valid_index ix vs = None" "last_valid_index ix vs = None"
    by (simp_all add: first_valid_index_def last_valid_index_def)
qed

lemma missing_pct_cases:
  "vs \<noteq> [] \<Longrightarrow> missing_pct vs = Num (real (length (filter (\<lambda>v. v = None) vs)) / real (length vs) * 100)"
  "vs \<noteq> [] \<Longrightarrow> length (filter (\<lambda>v. v = None) vs) = 0 \<Longrightarrow> missing_pct vs = Num 0"
  "length vs = 3 \<Longrightarrow> length (filter (\<lambda>v. v = None) vs) = 1 \<Longrightarrow> missing_pct vs = Num (100 / 3)"
  "vs = [] \<Longrightarrow> missing_pct vs = NaN"
  by (auto simp: missing_pct_def)

lemma column_appended:
  assumes "name \<notin> set (map fst c)"
  shows "column \<lparr>idx = ix, cols = c @ rest\<rparr> name = map_of rest name"
  using assms by (simp add: column_def map_add_def map_of_eq_None_iff[symmetric])

lemma summary_entry_missing_pct:
  assumes "cols df \<noteq> []"
  shows "summary_entry df l ''missing_pct'' =
     map_of (zip (columns df) (map (\<lambda>(l, vs). missing_pct vs) (cols df))) l"
proof -
  from summarize_timeseries_columns[OF assms] obtain c where
    c: "map fst c = [''count'', ''mean'', ''std'', ''min'', ''25%'', ''50%'', ''75%'', ''max'']"
    and s0: "summarize_timeseries df =
     Inr \<lparr>idx = columns df,
          cols = c @
            [(''missing_pct'', map (\<lambda>(l, vs). missing_pct vs) (cols df)),
             (''start_date'', map (\<lambda>(l, vs). stamp (first_valid_index (idx df) vs)) (cols df)),
             (''end_date'', map (\<lambda>(l, vs). stamp (last_valid_index (idx df) vs)) (cols df))]\<rparr>"
    by (elim exE conjE) (rule that)
  have n: "''missing_pct'' \<notin> set (map fst c)" unfolding c by simp
  show ?thesis
    using column_appended[OF n, of "columns df"]
    by (simp add: summary_entry_def s0 entry_def)
qed

text \<open>
  Claim C2, as the code has it. For a table with at least one column the summary has one
  row per column, in column order, and its \<open>missing_pct\<close>, \<open>start_date\<close> and \<open>end_date\<close>
  columns hold, row by row: the count of no-value entries of the column divided by the
  number of rows, times 100 (so 0 for a column without missing entries and 100/3, not a
  value rounded to two decimals, for one missing entry out of three rows; NaN when the
  table has no rows), and the absent value for both dates when every entry of the column
  is the no-value marker.
\<close>

theorem summarize_timeseries_missing_pct:
  assumes "cols df \<noteq> []"
  shows "\<exists>s pct first last.
     summarize_timeseries df = Inr s \<and> idx s = columns df
     \<and> column s ''missing_pct'' = Some pct \<and> length pct = length (cols df)
     \<and> column s ''start_date'' = Some first \<and> length first = length (cols df)
     \<and> column s ''end_date'' = Some last \<and> length last = length (cols df)
     \<and> (\<forall>k < length (cols df).
          let vs = snd (cols df ! k); missing = length (filter (\<lambda>v. v = None) vs) in
            (vs \<noteq> [] \<longrightarrow> pct ! k = Num (real missing / real (length vs) * 100))
          \<and> (vs \<noteq> [] \<and> missing = 0 \<longrightarrow> pct ! k = Num 0)
          \<and> (length vs = 3 \<and> missing = 1 \<longrightarrow> pct ! k = Num (100 / 3))
          \<and> (vs = [] \<longrightarrow> pct ! k = NaN)
          \<and> (missing = length vs \<longrightarrow> first ! k = Absent \<and> last ! k = Absent))"
proof -
  define pct where "pct = map (\<lambda>(l, vs). missing_pct vs) (cols df)"
  define first where "first = map (\<lambda>(l, vs). stamp (first_valid_index (idx df) vs)) (cols df)"
  define last where "last = map (\<lambda>(l, vs). stamp (last_valid_index (idx df) vs)) (cols df)"
  from summarize_timeseries_columns[OF assms] obtain c where
    c: "map fst c = [''count'', ''mean'', ''std'', ''min'', ''25%'', ''50%'', ''75%'', ''max'']"
    and s0: "summarize_timeseries df =
     Inr \<lparr>idx = columns df,
          cols = c @
            [(''missing_pct'', map (\<lambda>(l, vs). missing_pct vs) (cols df)),
             (''start_date'', map (\<lambda>(l, vs). stamp (first_valid_index (idx df) vs)) (cols df)),
             (''end_date'', map (\<lambda>(l, vs). stamp (last_valid_index (idx df) vs)) (cols df))]\<rparr>"
    by (elim exE conjE) (rule that)
  have s: "summarize_timeseries df =
     Inr \<lparr>idx = columns df,
          cols = c @ [(''missing_pct'', pct), (''start_date'', first), (''end_date'', last)]\<rparr>"
    unfolding pct_def first_def last_def by (rule s0)
  define s' where "s' = \<lparr>idx = columns df,
          cols = c @ [(''missing_pct'', pct), (''start_date'', first), (''end_date'', last)]\<rparr>"
  have names: "''missing_pct'' \<notin> set (map fst c)" "''start_date'' \<notin> set (map fst c)"
    "''end_date'' \<notin> set (map fst c)"
    unfolding c by simp_all
  have 1: "summarize_timeseries df = Inr s'" using s by (simp add: s'_def)
  have 2: "idx s' = columns df" by (simp add: s'_def)
  have 3: "column s' ''missing_pct'' = Some pct"
    unfolding s'_def column_appended[OF names(1)] by simp
  have 4: "column s' ''start_date'' = Some first"
    unfolding s'_def column_appended[OF names(2)] by simp
  have 5: "column s' ''end_date'' = Some last"
    unfolding s'_def column_appended[OF names(3)] by simp
  have 6: "length pct = length (cols df)" "length first = length (cols df)"
    "length last = length (cols df)"
    by (simp_all add: pct_def first_def last_def)
  have 7: "\<forall>k < length (cols df).
          let vs = snd (cols df ! k); missing = length (filter (\<lambda>v. v = None) vs) in
            (vs \<noteq> [] \<longrightarrow> pct ! k = Num (real missing / real (length vs) * 100))
          \<and> (vs \<noteq> [] \<and> missing = 0 \<longrightarrow> pct ! k = Num 0)
          \<and> (length vs = 3 \<and> missing = 1 \<longrightarrow> pct ! k = Num (100 / 3))
          \<and> (vs = [] \<longrightarrow> pct ! k = NaN)
          \<and> (missing = length vs \<longrightarrow> first ! k = Absent \<and> last ! k = Absent)"
  proof (intro allI impI)
    fix k assume k: "k < length (cols df)"
    define vs where "vs = snd (cols df ! k)"
    have p: "pct ! k = missing_pct vs" "first ! k = stamp (first_valid_index (idx df) vs)"
      "last ! k = stamp (last_valid_index (idx df) vs)"
      using k by (simp_all add: pct_def first_def last_def vs_def case_prod_unfold)
    have a: "first ! k = Absent \<and> last ! k = Absent"
      if "length (filter (\<lambda>v. v = None) vs) = length vs"
      using no_valid_index[OF all_missing[OF that], of "idx df"] p by (simp add: stamp_def)
    show "let vs = snd (cols df ! k); missing = length (filter (\<lambda>v. v = None) vs) in
            (vs \<noteq> [] \<longrightarrow> pct ! k = Num (real missing / real (length vs) * 100))
          \<and> (vs \<noteq> [] \<and> missing = 0 \<longrightarrow> pct ! k = Num 0)
          \<and> (length vs = 3 \<and> missing = 1 \<longrightarrow> pct ! k = Num (100 / 3))
          \<and> (vs = [] \<longrightarrow> pct ! k = NaN)
          \<and> (missing = length vs \<longrightarrow> first ! k = Absent \<and> last ! k = Absent)"
      unfolding Let_def vs_def[symmetric] p(1)
      using missing_pct_cases[of vs] a by blast
  qed
  show ?thesis
    using 1 2 3 4 5 6 7 by blast
qed


theorem summarize_timeseries_missing_pct_witness:
  "cols gaps_table \<noteq> [] \<and>
   (\<exists>s pct first last. summarize_timeseries gaps_table = Inr s \<and> idx s = [''a'', ''b'', ''c'']
      \<and> column s ''missing_pct'' = Some pct \<and> column s ''start_date'' = Some first
      \<and> column s ''end_date'' = Some last
      \<and> pct ! 0 = Num 0 \<and> pct ! 1 = Num (100 / 3) \<and> pct ! 2 = Num 100
      \<and> first ! 2 = Absent \<and> last ! 2 = Absent)"
proof -
  have ne: "cols gaps_table \<noteq> []" by (simp add: gaps_table_def)
  from summarize_timeseries_missing_pct[OF ne] obtain s pct first last where
    r: "summarize_timeseries gaps_table = Inr s" "idx s = columns gaps_table"
      "column s ''missing_pct'' = Some pct" "column s ''start_date'' = Some first"
      "column s ''end_date'' = Some last"
    and k: "\<forall>k < length (cols gaps_table).
          let vs = snd (cols gaps_table ! k); missing = length (filter (\<lambda>v. v = None) vs) in
            (vs \<noteq> [] \<longrightarrow> pct ! k = Num (real missing / real (length vs) * 100))
          \<and> (vs \<noteq> [] \<and> missing = 0 \<longrightarrow> pct ! k = Num 0)
          \<and> (length vs = 3 \<and> missing = 1 \<longrightarrow> pct ! k = Num (100 / 3))
          \<and> (vs = [] \<longrightarrow> pct ! k = NaN)
          \<and> (missing = length vs \<longrightarrow> first ! k = Absent \<and> last ! k = Absent)"
    by (elim exE conjE) (rule that)
  have 0: "pct ! 0 = Num 0" using k[rule_format, of 0] by (simp add: gaps_table_def)
  have 1: "pct ! 1 = Num (100 / 3)" using k[rule_format, of 1] by (simp add: gaps_table_def)
  have 2: "pct ! 2 = Num 100 \<and> first ! 2 = Absent \<and> last ! 2 = Absent"
    using k[rule_format, of 2] by (simp add: gaps_table_def)
  have l: "columns gaps_table = [''a'', ''b'', ''c'']" by (simp add: gaps_table_def columns_def)
  show ?thesis
    using ne r 0 1 2 unfolding l by blast
qed

text \<open>
  Claim C2 as stated fails: for the merged table of the example, where column \<open>b\<close> misses
  one entry out of three, the reported percentage is 100/3 and not 33.33.
\<close>

theorem summarize_timeseries_missing_pct_counterexample:
  "summary_entry demo_table ''b'' ''missing_pct'' = Some (Num (100 / 3))
   \<and> summary_entry demo_table ''b'' ''missing_pct'' \<noteq> Some (Num (3333 / 100))"
proof -
  have ne: "cols demo_table \<noteq> []" by (simp add: demo_table_def)
  have "summary_entry demo_table ''b'' ''missing_pct'' = Some (Num (100 / 3))"
    unfolding summary_entry_missing_pct[OF ne]
    by (simp add: demo_table_def columns_def missing_pct_def)
  then show ?thesis by simp
qed

section \<open>Properties of the monthly resampling and of the correlation\<close>

lemma filter_zip_map_fst:
  "map snd (filter (\<lambda>(m, v). m = b) (zip (map f xs) ys)) =
     map snd (filter (\<lambda>(d, v). f d = b) (zip xs ys))"
proof (induction xs arbitrary: ys)
  case Nil
  then show ?case by simp
next
  case (Cons x xs)
  then show ?case by (cases ys) auto
qed

lemma cols_resampled:
  "cols (group_mean (resample_M df)) =
      map (\<lambda>(l, vs). (l, map (\<lambda>b. mean (dropna (map snd (filter (\<lambda>(d, v). month_no d = b) (zip (idx df) vs)))))
            (idx (resample_M df)))) (cols df)"
  unfolding group_mean_def resample_M_def Let_def filter_zip_map_fst
  by (induction "cols df") auto

lemma column_resampled:
  assumes "column df l = Some vs"
  shows "column (group_mean (resample_M df)) l =
     Some (map (\<lambda>b. mean (dropna (map snd (filter (\<lambda>(d, v). month_no d = b) (zip (idx df) vs)))))
            (idx (resample_M df)))"
proof -
  have "map_of (map (\<lambda>(l, vs). (l, F vs)) cs) l = map_option F (map_of cs l)" for F :: "real option list \<Rightarrow> real option list" and cs
    by (induction cs) auto
  then show ?thesis using assms unfolding column_def cols_resampled by simp
qed

lemma idx_group_mean: "idx (group_mean g) = idx g"
  by (simp add: group_mean_def)

lemma set_idx_resampled:
  "set (idx (resample_M df)) =
     (if idx df = [] then {}
      else {Min (set (map month_no (idx df))) ..< Suc (Max (set (map month_no (idx df))))})"
  unfolding resample_M_def Let_def by (simp del: upt_Suc)

lemma distinct_bins: "distinct (idx (resample_M df))"
  unfolding resample_M_def Let_def by (simp del: upt_Suc)

lemma month_in_bins:
  assumes "d \<in> set (idx df)"
  shows "month_no d \<in> set (idx (resample_M df))"
proof -
  have ne: "idx df \<noteq> []" using assms by auto
  have m: "month_no d \<in> set (map month_no (idx df))" using assms by simp
  have "Min (set (map month_no (idx df))) \<le> month_no d" using m by (intro Min_le) auto
  moreover have "month_no d \<le> Max (set (map month_no (idx df)))" using m by (intro Max_ge) auto
  ultimately show ?thesis unfolding set_idx_resampled using ne by auto
qed

lemma count_list_distinct:
  "distinct xs \<Longrightarrow> x \<in> set xs \<Longrightarrow> count_list xs x = 1"
  by (induction xs) auto

text \<open>
  Claim C4. When the observations of a column that fall in a calendar month are exactly
  two, the monthly table has a single row for that month and the column's cell in it is
  the arithmetic mean of the two observations.
\<close>

theorem resample_mean_of_two:
  assumes "month_values df l b = [x, y]"
  shows "count_list (idx (group_mean (resample_M df))) b = 1
     \<and> cell (group_mean (resample_M df)) l b = Some ((x + y) / 2)"
proof -
  obtain vs where vs: "column df l = Some vs"
    and obs: "dropna (map snd (filter (\<lambda>(d, v). month_no d = b) (zip (idx df) vs))) = [x, y]"
    using assms by (auto simp: month_values_def split: option.splits)
  have "filter (\<lambda>(d, v). month_no d = b) (zip (idx df) vs) \<noteq> []"
    using obs by (auto simp: dropna_def)
  then obtain d v where "(d, v) \<in> set (zip (idx df) vs)" "month_no d = b"
    by (auto simp: filter_empty_conv)
  then have "d \<in> set (idx df)" "month_no d = b" by (auto dest: set_zip_leftD)
  then have bin: "b \<in> set (idx (resample_M df))" using month_in_bins by blast
  have 1: "count_list (idx (group_mean (resample_M df))) b = 1"
    using bin distinct_bins[of df] by (simp add: idx_group_mean count_list_distinct)
  have 2: "cell (group_mean (resample_M df)) l b = Some ((x + y) / 2)"
    using bin obs
    by (simp add: cell_def column_resampled[OF vs] idx_group_mean map_of_zip_map mean_def)
  show ?thesis using 1 2 by simp
qed

theorem resample_mean_of_two_witness:
  "month_values two_months ''a'' 24241 = [1, 2]
   \<and> count_list (idx (group_mean (resample_M two_months))) 24241 = 1
   \<and> cell (group_mean (resample_M two_months)) ''a'' 24241 = Some (3 / 2)"
proof -
  have h: "month_values two_months ''a'' 24241 = [1, 2]"
    by (simp add: month_values_def two_months_def column_def month_no_def dropna_def)
  show ?thesis using h resample_mean_of_two[OF h] by simp
qed


lemma complete_pairs_swap:
  "complete_pairs ys xs = map (\<lambda>(a, b). (b, a)) (complete_pairs xs ys)"
proof (induction xs arbitrary: ys)
  case Nil
  then show ?case by (simp add: complete_pairs_def)
next
  case (Cons x xs)
  show ?case
  proof (cases ys)
    case Nil
    then show ?thesis by (simp add: complete_pairs_def)
  next
    case (Cons y ys')
    then show ?thesis
      using Cons.IH[of ys']
      by (cases x; cases y) (simp_all add: complete_pairs_def)
  qed
qed

lemma pearson_sym: "pearson xs ys = pearson ys xs"
proof -
  let ?ps = "complete_pairs xs ys"
  have sw: "complete_pairs ys xs = map (\<lambda>(a, b). (b, a)) ?ps" by (rule complete_pairs_swap)
  have f: "map fst (map (\<lambda>(a, b). (b, a)) ?ps) = map snd ?ps"
    "map snd (map (\<lambda>(a, b). (b, a)) ?ps) = map fst ?ps"
    by (simp_all add: case_prod_unfold comp_def)
  have m: "map (\<lambda>(a, b). F a b) (map (\<lambda>(a, b). (b, a)) ?ps) = map (\<lambda>(a, b). F b a) ?ps"
    for F :: "real \<Rightarrow> real \<Rightarrow> real"
    by (simp add: case_prod_unfold comp_def)
  show ?thesis
    unfolding pearson_def[of ys xs] sw Let_def f m
    unfolding pearson_def[of xs ys] Let_def
    by (simp add: mult.commute)
qed

lemma complete_pairs_self: "complete_pairs xs xs = map (\<lambda>a. (a, a)) (dropna xs)"
proof (induction xs)
  case Nil
  then show ?case by (simp add: complete_pairs_def dropna_def)
next
  case (Cons x xs)
  then show ?case by (cases x) (simp_all add: complete_pairs_def dropna_def)
qed

lemma sum_squares_zero:
  fixes zs :: "real list"
  assumes "sum_list (map (\<lambda>a. (a - m) * (a - m)) zs) = 0"
  shows "\<forall>a \<in> set zs. a = m"
proof -
  have "\<forall>v \<in> set (map (\<lambda>a. (a - m) * (a - m)) zs). 0 \<le> v" by auto
  then have "\<forall>v \<in> set (map (\<lambda>a. (a - m) * (a - m)) zs). v = 0"
    using assms sum_list_nonneg_eq_0_iff by blast
  then show ?thesis by auto
qed

lemma varies_sum_squares:
  assumes "varies xs"
  shows "0 < sum_list (map (\<lambda>a. (a - m) * (a - m)) (dropna xs))"
proof -
  have nonneg: "0 \<le> sum_list (map (\<lambda>a. (a - m) * (a - m)) (dropna xs))"
    by (rule sum_list_nonneg) auto
  have "sum_list (map (\<lambda>a. (a - m) * (a - m)) (dropna xs)) \<noteq> 0"
  proof
    assume "sum_list (map (\<lambda>a. (a - m) * (a - m)) (dropna xs)) = 0"
    then have "set (dropna xs) \<subseteq> {m}" using sum_squares_zero by blast
    then have "card (set (dropna xs)) \<le> 1"
      by (metis card_mono finite.emptyI finite.insertI card.empty card_insert_disjoint empty_iff One_nat_def)
    then show False using assms by (simp add: varies_def length_remdups_card_conv)
  qed
  then show ?thesis using nonneg by simp
qed

lemma pearson_self:
  assumes "varies xs"
  shows "pearson xs xs = Some 1"
proof -
  define zs where "zs = dropna xs"
  define m where "m = sum_list zs / real (length zs)"
  define S where "S = sum_list (map (\<lambda>a. (a - m) * (a - m)) zs)"
  have ne: "zs \<noteq> []" using assms by (auto simp: varies_def zs_def)
  have pos: "0 < S" unfolding S_def zs_def by (rule varies_sum_squares[OF assms])
  have ps: "complete_pairs xs xs = map (\<lambda>a. (a, a)) zs"
    by (simp add: complete_pairs_self zs_def)
  have "pearson xs xs = (if sqrt (S * S) = 0 then None else Some (S / sqrt (S * S)))"
    unfolding pearson_def ps Let_def using ne
    by (simp add: comp_def m_def[symmetric] S_def[symmetric])
  then show ?thesis using pos by simp
qed

lemma corr_entry:
  assumes "i < length (cols f)" "j < length (cols f)"
  shows "snd (cols (corr f) ! j) ! i = pearson (snd (cols f ! i)) (snd (cols f ! j))"
  using assms by (simp add: corr_def case_prod_unfold)

lemma corr_shape: "length (cols (corr f)) = length (cols f)" "idx (corr f) = columns f"
  "columns (corr f) = columns f"
  by (simp_all add: corr_def columns_def case_prod_unfold comp_def)

lemma plot_correlation_heatmap_result:
  "plot_correlation_heatmap df ttl =
     (if cols df = [] then Inl ValueError
      else Inr \<lparr>subplots_of =
             [blank_axes\<lparr>title := ttl, artists := [Heatmap (corr (group_mean (resample_M df)))]\<rparr>]\<rparr>)"
proof -
  have "cols (corr (group_mean (resample_M df))) = [] \<longleftrightarrow> cols df = []"
    using corr_shape(1)[of "group_mean (resample_M df)"]
    by (simp add: cols_resampled del: length_0_conv add: length_0_conv[symmetric])
  then show ?thesis
    by (simp add: plot_correlation_heatmap_def Let_def subplots_def bind_result_def heatmap_def
        on_axes_def draw_def blank_axes_def)
qed

text \<open>
  Claim C3. The matrix that \<^verbatim>\<open>plot_correlation_heatmap\<close> draws is the correlation of the
  monthly means: it has one row and one column per column of the table, it is symmetric,
  and for a non-degenerate table every entry of its diagonal is 1.
\<close>

theorem correlation_matrix_symmetric_unit_diagonal:
  assumes "plot_correlation_heatmap df ttl = Inr fig"
  shows "\<exists>c. map artists (subplots_of fig) = [[Heatmap c]]
     \<and> c = corr (group_mean (resample_M df))
     \<and> idx c = columns df \<and> columns c = columns df
     \<and> (\<forall>i < length (cols c). \<forall>j < length (cols c). snd (cols c ! j) ! i = snd (cols c ! i) ! j)
     \<and> (non_degenerate df \<longrightarrow> (\<forall>i < length (cols c). snd (cols c ! i) ! i = Some 1))"
proof -
  define m where "m = group_mean (resample_M df)"
  define c where "c = corr m"
  have fig: "map artists (subplots_of fig) = [[Heatmap c]]"
    using assms unfolding plot_correlation_heatmap_result c_def m_def
    by (auto simp: blank_axes_def split: if_splits)
  have len: "length (cols c) = length (cols m)" by (simp add: c_def corr_shape)
  have labels: "columns m = columns df"
    by (simp add: m_def cols_resampled columns_def case_prod_unfold comp_def)
  have sym: "snd (cols c ! j) ! i = snd (cols c ! i) ! j"
    if "i < length (cols c)" "j < length (cols c)" for i j
    using that len by (simp add: c_def corr_entry pearson_sym[of "snd (cols m ! i)"])
  have diag: "snd (cols c ! i) ! i = Some 1" if nd: "non_degenerate df" and i: "i < length (cols c)" for i
  proof -
    have "cols m ! i \<in> set (cols m)" using i len by simp
    then have "varies (snd (cols m ! i))"
      using nd by (auto simp: non_degenerate_def m_def list_all_iff)
    then show ?thesis using i len by (simp add: c_def corr_entry pearson_self)
  qed
  show ?thesis
    using fig sym diag labels
    by (intro exI[of _ c]) (simp add: c_def m_def corr_shape)
qed


lemma two_months_monthly:
  "group_mean (resample_M two_months) =
     \<lparr>idx = [24241, 24242], cols = [(''a'', [Some (3 / 2), Some 4]), (''b'', [Some 6, Some 1])]\<rparr>"
  by (simp add: group_mean_def resample_M_def two_months_def month_no_def Let_def mean_def dropna_def)

theorem correlation_matrix_symmetric_unit_diagonal_witness:
  "non_degenerate two_months
   \<and> (\<exists>fig c. plot_correlation_heatmap two_months ''Correlation (monthly freq)'' = Inr fig
        \<and> map artists (subplots_of fig) = [[Heatmap c]]
        \<and> columns c = [''a'', ''b'']
        \<and> snd (cols c ! 0) ! 0 = Some 1 \<and> snd (cols c ! 1) ! 1 = Some 1
        \<and> snd (cols c ! 1) ! 0 = snd (cols c ! 0) ! 1)"
proof -
  have nd: "non_degenerate two_months"
    by (simp add: non_degenerate_def two_months_monthly varies_def dropna_def)
  have ok: "plot_correlation_heatmap two_months ''Correlation (monthly freq)'' =
      Inr \<lparr>subplots_of = [blank_axes\<lparr>title := ''Correlation (monthly freq)'',
             artists := [Heatmap (corr (group_mean (resample_M two_months)))]\<rparr>]\<rparr>"
    by (simp add: plot_correlation_heatmap_result two_months_def)
  from correlation_matrix_symmetric_unit_diagonal[OF ok] nd
  obtain c where c: "c = corr (group_mean (resample_M two_months))"
    "columns c = columns two_months"
    "\<forall>i < length (cols c). \<forall>j < length (cols c). snd (cols c ! j) ! i = snd (cols c ! i) ! j"
    "\<forall>i < length (cols c). snd (cols c ! i) ! i = Some 1"
    by blast
  have len: "length (cols c) = 2" by (simp add: c(1) corr_shape two_months_monthly)
  have art: "map artists (subplots_of \<lparr>subplots_of = [blank_axes\<lparr>title := ''Correlation (monthly freq)'',
             artists := [Heatmap (corr (group_mean (resample_M two_months)))]\<rparr>]\<rparr>) = [[Heatmap c]]"
    by (simp add: c(1))
  have "columns c = [''a'', ''b'']" using c(2) by (simp add: two_months_def columns_def)
  moreover have "snd (cols c ! 0) ! 0 = Some 1" "snd (cols c ! 1) ! 1 = Some 1"
    using c(4) len by simp_all
  moreover have "snd (cols c ! 1) ! 0 = snd (cols c ! 0) ! 1"
    using c(3) len by simp
  ultimately show ?thesis using nd art by (simp add: ok)
qed

section \<open>Properties of the distribution plotter\<close>

lemma column_present:
  assumes "c \<in> set (columns df)"
  shows "\<exists>vs. column df c = Some vs"
  using assms by (cases "map_of (cols df) c") (auto simp: column_def columns_def map_of_eq_None_iff)

lemma on_axes_at:
  "on_axes \<lparr>subplots_of = pre @ a # rest\<rparr> (Ax (length pre)) f =
     Inr \<lparr>subplots_of = pre @ f a # rest\<rparr>"
  by (simp add: on_axes_def)

lemma distribution_loop_panels:
  assumes "set cs \<subseteq> set (columns df)" "length pre = k"
  shows "distribution_loop df (zip (map Ax [k..<k + length cs]) cs)
           \<lparr>subplots_of = pre @ replicate (length cs) blank_axes\<rparr> =
         Inr \<lparr>subplots_of = pre @ map (panel df) cs\<rparr>"
  using assms
proof (induction cs arbitrary: pre k)
  case Nil
  then show ?case by simp
next
  case (Cons c cs)
  from Cons.prems obtain vs where vs: "column df c = Some vs"
    using column_present[of c df] by auto
  have upt: "[k..<k + length (c # cs)] = k # [Suc k..<Suc k + length cs]"
    by (simp del: upt_Suc add: upt_conv_Cons)
  have k: "k = length pre" using Cons.prems(2) by simp
  have IH: "distribution_loop df (zip (map Ax [Suc k..<Suc k + length cs]) cs)
           \<lparr>subplots_of = (pre @ [panel df c]) @ replicate (length cs) blank_axes\<rparr> =
         Inr \<lparr>subplots_of = (pre @ [panel df c]) @ map (panel df) cs\<rparr>"
    using Cons.prems by (intro Cons.IH) auto
  have p: "(draw (Hist (dropna vs)) blank_axes)\<lparr>title := ''Distribution of '' @ c\<rparr> = panel df c"
    by (simp add: panel_def vs draw_def blank_axes_def)
  have "distribution_loop df (zip (map Ax (k # [Suc k..<Suc k + length cs])) (c # cs))
           \<lparr>subplots_of = pre @ blank_axes # replicate (length cs) blank_axes\<rparr> =
        distribution_loop df (zip (map Ax [Suc k..<Suc k + length cs]) cs)
           \<lparr>subplots_of = pre @ panel df c # replicate (length cs) blank_axes\<rparr>"
    unfolding k by (simp del: upt_Suc add: vs bind_result_def on_axes_at p[simplified])
  then show ?case
    unfolding upt using IH by simp
qed

lemma plot_distribution_panels:
  assumes "selected \<noteq> []" "set selected \<subseteq> set (columns df)"
  shows "plot_distribution df (Some selected) = Inr \<lparr>subplots_of = map (panel df) selected\<rparr>"
proof -
  have loop: "distribution_loop df (zip (map Ax [0..<0 + length selected]) selected)
           \<lparr>subplots_of = [] @ replicate (length selected) blank_axes\<rparr> =
         Inr \<lparr>subplots_of = [] @ map (panel df) selected\<rparr>"
    by (rule distribution_loop_panels[OF assms(2)]) simp
  show ?thesis
  proof (cases "length selected = 1")
    case True
    then have "[0..<0 + length selected] = [0]" by simp
    then have "distribution_loop df (zip [Ax 0] selected) \<lparr>subplots_of = [blank_axes]\<rparr> =
         Inr \<lparr>subplots_of = map (panel df) selected\<rparr>"
      using loop True by simp
    then show ?thesis
      using True assms(1)
      by (simp add: plot_distribution_def subplots_def bind_result_def Let_def iterate_def)
  next
    case False
    then show ?thesis
      using loop assms(1)
      by (simp add: plot_distribution_def subplots_def bind_result_def Let_def iterate_def)
  qed
qed

text \<open>
  Claim C6, as the code has it. For a non-empty selection of labels of the table, the
  figure has exactly one subplot per selected label, in the order of the selection, each
  holding the histogram of that column's values with the no-value entries dropped and
  titled with the label; without a selection the plotter takes all columns of the table.
\<close>

theorem plot_distribution_one_subplot_per_column:
  assumes "selected \<noteq> []" "set selected \<subseteq> set (columns df)"
  shows "\<exists>fig. plot_distribution df (Some selected) = Inr fig
     \<and> length (subplots_of fig) = length selected
     \<and> (\<forall>k < length selected. \<exists>vs. column df (selected ! k) = Some vs
          \<and> subplots_of fig ! k =
              blank_axes\<lparr>artists := [Hist (dropna vs)],
                         title := ''Distribution of '' @ selected ! k\<rparr>)
     \<and> plot_distribution df None = plot_distribution df (Some (columns df))"
proof -
  have 1: "plot_distribution df (Some selected) = Inr \<lparr>subplots_of = map (panel df) selected\<rparr>"
    by (rule plot_distribution_panels[OF assms])
  have 2: "\<exists>vs. column df (selected ! k) = Some vs
          \<and> map (panel df) selected ! k =
              blank_axes\<lparr>artists := [Hist (dropna vs)],
                         title := ''Distribution of '' @ selected ! k\<rparr>"
    if "k < length selected" for k
  proof -
    have "selected ! k \<in> set (columns df)" using that assms(2) by auto
    then obtain vs where "column df (selected ! k) = Some vs" using column_present by blast
    then show ?thesis using that by (simp add: panel_def)
  qed
  have 3: "plot_distribution df None = plot_distribution df (Some (columns df))"
    by (simp add: plot_distribution_def)
  show ?thesis using 1 2 3 by simp
qed

theorem plot_distribution_one_subplot_per_column_witness:
  "\<exists>fig. plot_distribution demo_table (Some [''b'', ''a'']) = Inr fig
     \<and> map title (subplots_of fig) = [''Distribution of b'', ''Distribution of a'']
     \<and> map artists (subplots_of fig) = [[Hist [10, 30]], [Hist [1, 2, 3]]]"
proof -
  have h1: "[''b'', ''a''] \<noteq> []" by simp
  have h2: "set [''b'', ''a''] \<subseteq> set (columns demo_table)"
    by (simp add: columns_def demo_table_def)
  from plot_distribution_one_subplot_per_column[OF h1 h2]
  obtain fig where fig: "plot_distribution demo_table (Some [''b'', ''a'']) = Inr fig"
    "length (subplots_of fig) = 2"
    and k: "\<forall>k < 2. \<exists>vs. column demo_table ([''b'', ''a''] ! k) = Some vs
          \<and> subplots_of fig ! k =
              blank_axes\<lparr>artists := [Hist (dropna vs)],
                         title := ''Distribution of '' @ [''b'', ''a''] ! k\<rparr>"
    by auto
  have c: "column demo_table ''b'' = Some [Some 10, None, Some 30]"
    "column demo_table ''a'' = Some [Some 1, Some 2, Some 3]"
    by (simp_all add: column_def demo_table_def)
  have "subplots_of fig ! 0 = blank_axes\<lparr>artists := [Hist [10, 30]], title := ''Distribution of b''\<rparr>"
    using k[rule_format, of 0] c by (simp add: dropna_def)
  moreover have "subplots_of fig ! 1 = blank_axes\<lparr>artists := [Hist [1, 2, 3]], title := ''Distribution of a''\<rparr>"
    using k[rule_format, of 1] c by (simp add: dropna_def)
  moreover have "subplots_of fig = [subplots_of fig ! 0, subplots_of fig ! 1]"
    using fig(2) by (cases "subplots_of fig"; cases "tl (subplots_of fig)") auto
  ultimately have "subplots_of fig =
      [blank_axes\<lparr>artists := [Hist [10, 30]], title := ''Distribution of b''\<rparr>,
       blank_axes\<lparr>artists := [Hist [1, 2, 3]], title := ''Distribution of a''\<rparr>]"
    by simp
  then show ?thesis using fig(1) by simp
qed

text \<open>
  Claim C6 as stated fails for the empty selection: \<^verbatim>\<open>plt.subplots(0, 1)\<close> raises, so no
  figure is produced.
\<close>

theorem plot_distribution_empty_selection_counterexample:
  "plot_distribution demo_table (Some []) = Inl ValueError"
  by (simp add: plot_distribution_def subplots_def bind_result_def)

text \<open>
  Claim C10. For a selection of one label of the table the plotter returns a figure with
  exactly one subplot: the subplot creation returns the single subplot itself, which is
  not iterable, and the one-element list that the function wraps it in is.
\<close>

theorem plot_distribution_single_column:
  assumes "c \<in> set (columns df)"
  shows "\<exists>fig blank. plot_distribution df (Some [c]) = Inr fig \<and> length (subplots_of fig) = 1
     \<and> subplots 1 = Inr (blank, Ax 0)
     \<and> iterate (Ax 0) = Inl TypeError
     \<and> iterate (PyList [Ax 0]) = Inr [Ax 0]"
proof -
  have "plot_distribution df (Some [c]) = Inr \<lparr>subplots_of = map (panel df) [c]\<rparr>"
    using assms by (intro plot_distribution_panels) auto
  then show ?thesis by (simp add: subplots_def iterate_def)
qed

theorem plot_distribution_single_column_witness:
  "''b'' \<in> set (columns demo_table)
   \<and> (\<exists>fig. plot_distribution demo_table (Some [''b'']) = Inr fig \<and> length (subplots_of fig) = 1)"
proof -
  have h: "''b'' \<in> set (columns demo_table)" by (simp add: columns_def demo_table_def)
  show ?thesis using h plot_distribution_single_column[OF h] by blast
qed

section \<open>Properties of the orchestrator\<close>

lemma run_quick_eda_log:
  "prefix (log (fst (run_quick_eda w))) full_log
   \<and> map fst (files (fst (run_quick_eda w))) = written (log (fst (run_quick_eda w)))
   \<and> (case snd (run_quick_eda w) of
         Inr u \<Rightarrow> log (fst (run_quick_eda w)) = full_log
       | Inl e \<Rightarrow> log (fst (run_quick_eda w)) \<noteq> full_log
                 \<and> (files (fst (run_quick_eda w)) = [] \<longleftrightarrow> length (log (fst (run_quick_eda w))) < 3))"
  unfolding run_quick_eda_def then_step_def call_def write_file_def print_def full_log_def
    written_def
  by (simp split: sum.splits prod.splits)

lemma written_full_log: "written full_log = output_paths"
  by (simp add: written_def full_log_def output_paths_def)

lemma distinct_full_log: "distinct full_log"
  by (simp add: full_log_def)

lemma plot_time_series_result:
  "plot_time_series df ttl =
     (if cols df = [] then Inl TypeError
      else Inr \<lparr>subplots_of =
             [\<lparr>title = ttl, xlabel = ''Date'', ylabel = ''Value'', legend_title = Some ''Series'',
               artists = map (\<lambda>(l, vs). Line l (zip (idx df) vs)) (cols df)\<rparr>]\<rparr>)"
  by (simp add: plot_time_series_def subplots_def bind_result_def df_plot_def on_axes_def
      blank_axes_def)

lemma run_quick_eda_completes:
  assumes "fetch_fred_series w fred_series ''2010-01-01'' None = Inr df"
    and "cols df \<noteq> []"
    and "set [''cpi'', ''unemployment_rate'', ''fed_funds_rate''] \<subseteq> set (columns df)"
    and "list_all (writable w) output_paths"
  shows "snd (run_quick_eda w) = Inr ()"
proof -
  obtain s where s: "summarize_timeseries df = Inr s"
    using summarize_timeseries_columns[OF assms(2)] by blast
  have d: "plot_distribution df (Some [''cpi'', ''unemployment_rate'', ''fed_funds_rate'']) =
      Inr \<lparr>subplots_of = map (panel df) [''cpi'', ''unemployment_rate'', ''fed_funds_rate'']\<rparr>"
    by (rule plot_distribution_panels[OF _ assms(3)]) simp
  show ?thesis
    using assms(2,4)
    by (simp add: run_quick_eda_def then_step_def call_def write_file_def print_def
      assms(1) s d plot_time_series_result plot_correlation_heatmap_result output_paths_def)
qed

lemma run_quick_eda_without_figures:
  assumes "fetch_fred_series w fred_series ''2010-01-01'' None = Inr df"
    and "cols df \<noteq> []"
    and "writable w ''data/processed/summary.csv''"
    and "\<not> writable w ''figures/time_series.png''"
  shows "snd (run_quick_eda w) = Inl OSError"
    "map fst (files (fst (run_quick_eda w))) = [''data/processed/summary.csv'']"
    "log (fst (run_quick_eda w)) =
       [Fetch, Summarize, Wrote ''data/processed/summary.csv'', PlotTimeSeries]"
proof -
  obtain s where s: "summarize_timeseries df = Inr s"
    using summarize_timeseries_columns[OF assms(2)] by blast
  show "snd (run_quick_eda w) = Inl OSError"
    "map fst (files (fst (run_quick_eda w))) = [''data/processed/summary.csv'']"
    "log (fst (run_quick_eda w)) =
       [Fetch, Summarize, Wrote ''data/processed/summary.csv'', PlotTimeSeries]"
    using assms(2,3,4)
    by (simp_all add: run_quick_eda_def then_step_def call_def write_file_def print_def
      assms(1) s plot_time_series_result)
qed

lemma fetch_fred_table:
  "fetch_fred_series fred_world fred_series ''2010-01-01'' None = Inr fred_table"
  "fetch_fred_series no_figures_world fred_series ''2010-01-01'' None = Inr fred_table"
  by (simp_all add: fetch_fred_series_def fred_series_def fred_world_def no_figures_world_def
      fred_reader_def fred_retrieved_def fred_frame_def resolve_end_def rename_columns_def
      concat_axis1_def fred_table_def)

lemma run_quick_eda_events:
  "(Fetch \<in> set (log (fst (run_quick_eda w))) \<longleftrightarrow>
      (\<exists>df. fetch_fred_series w fred_series ''2010-01-01'' None = Inr df))
   \<and> (\<forall>df. fetch_fred_series w fred_series ''2010-01-01'' None = Inr df \<longrightarrow>
        (Summarize \<in> set (log (fst (run_quick_eda w))) \<longleftrightarrow>
           (\<exists>s. summarize_timeseries df = Inr s))
      \<and> (Wrote ''data/processed/summary.csv'' \<in> set (log (fst (run_quick_eda w))) \<longleftrightarrow>
           Summarize \<in> set (log (fst (run_quick_eda w)))
           \<and> writable w ''data/processed/summary.csv'')
      \<and> (PlotTimeSeries \<in> set (log (fst (run_quick_eda w))) \<longleftrightarrow>
           Wrote ''data/processed/summary.csv'' \<in> set (log (fst (run_quick_eda w)))
           \<and> (\<exists>f. plot_time_series df ''Macro & Market Time Series'' = Inr f))
      \<and> (Wrote ''figures/time_series.png'' \<in> set (log (fst (run_quick_eda w))) \<longleftrightarrow>
           PlotTimeSeries \<in> set (log (fst (run_quick_eda w)))
           \<and> writable w ''figures/time_series.png'')
      \<and> (PlotCorrelation \<in> set (log (fst (run_quick_eda w))) \<longleftrightarrow>
           Wrote ''figures/time_series.png'' \<in> set (log (fst (run_quick_eda w)))
           \<and> (\<exists>f. plot_correlation_heatmap df ''Correlation (monthly freq)'' = Inr f))
      \<and> (Wrote ''figures/correlation.png'' \<in> set (log (fst (run_quick_eda w))) \<longleftrightarrow>
           PlotCorrelation \<in> set (log (fst (run_quick_eda w)))
           \<and> writable w ''figures/correlation.png'')
      \<and> (PlotDistribution \<in> set (log (fst (run_quick_eda w))) \<longleftrightarrow>
           Wrote ''figures/correlation.png'' \<in> set (log (fst (run_quick_eda w)))
           \<and> (\<exists>f. plot_distribution df
                       (Some [''cpi'', ''unemployment_rate'', ''fed_funds_rate'']) = Inr f))
      \<and> (Wrote ''figures/distributions.png'' \<in> set (log (fst (run_quick_eda w))) \<longleftrightarrow>
           PlotDistribution \<in> set (log (fst (run_quick_eda w)))
           \<and> writable w ''figures/distributions.png'')
      \<and> (snd (run_quick_eda w) = Inr () \<longleftrightarrow>
           Wrote ''figures/distributions.png'' \<in> set (log (fst (run_quick_eda w)))))"
  unfolding run_quick_eda_def then_step_def call_def write_file_def print_def
  by (simp split: sum.splits prod.splits)

lemma run_quick_eda_artifacts:
  "\<forall>p a. (p, a) \<in> set (files (fst (run_quick_eda w))) \<longrightarrow>
     (\<exists>df. fetch_fred_series w fred_series ''2010-01-01'' None = Inr df
        \<and> ((p = ''data/processed/summary.csv''
              \<and> (\<exists>s. summarize_timeseries df = Inr s \<and> a = Csv s))
           \<or> (p = ''figures/time_series.png''
              \<and> (\<exists>f. plot_time_series df ''Macro & Market Time Series'' = Inr f
                    \<and> a = Png f 200))
           \<or> (p = ''figures/correlation.png''
              \<and> (\<exists>f. plot_correlation_heatmap df ''Correlation (monthly freq)'' = Inr f
                    \<and> a = Png f 200))
           \<or> (p = ''figures/distributions.png''
              \<and> (\<exists>f. plot_distribution df
                          (Some [''cpi'', ''unemployment_rate'', ''fed_funds_rate'']) = Inr f
                    \<and> a = Png f 200))))"
  unfolding run_quick_eda_def then_step_def call_def write_file_def print_def
  by (auto split: sum.splits prod.splits)

lemma run_quick_eda_complete_session:
  "snd (run_quick_eda w) = Inr () \<longrightarrow>
     (\<exists>df s f1 f2 f3.
        fetch_fred_series w fred_series ''2010-01-01'' None = Inr df
        \<and> summarize_timeseries df = Inr s
        \<and> plot_time_series df ''Macro & Market Time Series'' = Inr f1
        \<and> plot_correlation_heatmap df ''Correlation (monthly freq)'' = Inr f2
        \<and> plot_distribution df (Some [''cpi'', ''unemployment_rate'', ''fed_funds_rate'']) = Inr f3
        \<and> fst (run_quick_eda w) =
            \<lparr>log = full_log,
             files = [(''data/processed/summary.csv'', Csv s),
                      (''figures/time_series.png'', Png f1 200),
                      (''figures/correlation.png'', Png f2 200),
                      (''figures/distributions.png'', Png f3 200)]\<rparr>)"
  unfolding run_quick_eda_def then_step_def call_def write_file_def print_def full_log_def
  by (simp split: sum.splits prod.splits)

text \<open>
  Claim C7. Whatever the world does, the steps that \<^verbatim>\<open>run_quick_eda\<close> completes are an initial
  part of one fixed sequence: fetch, summarize, write the summary, then for each of the
  three plots the plot and the writing of its image, then the final message. Each step is
  done exactly when the step before it was done and its own call returns: the fetch of
  the four series from 2010-01-01, the summary of the fetched table, each plot of the
  fetched table, each write when the file system accepts the fixed path. Every file a run
  leaves holds, at its fixed path, the summary of the fetched table or the figure that the
  plotter of that path returns for it, saved at 200 dpi. A run that completes has done
  all steps in that order and has written exactly these four files. The function has no
  parameter besides the world it acts on.
\<close>

theorem run_quick_eda_steps_in_order:
  "prefix (log (fst (run_quick_eda w))) full_log
   \<and> map fst (files (fst (run_quick_eda w))) = written (log (fst (run_quick_eda w)))
   \<and> ((Fetch \<in> set (log (fst (run_quick_eda w))) \<longleftrightarrow>
      (\<exists>df. fetch_fred_series w fred_series ''2010-01-01'' None = Inr df))
   \<and> (\<forall>df. fetch_fred_series w fred_series ''2010-01-01'' None = Inr df \<longrightarrow>
        (Summarize \<in> set (log (fst (run_quick_eda w))) \<longleftrightarrow>
           (\<exists>s. summarize_timeseries df = Inr s))
      \<and> (Wrote ''data/processed/summary.csv'' \<in> set (log (fst (run_quick_eda w))) \<longleftrightarrow>
           Summarize \<in> set (log (fst (run_quick_eda w)))
           \<and> writable w ''data/processed/summary.csv'')
      \<and> (PlotTimeSeries \<in> set (log (fst (run_quick_eda w))) \<longleftrightarrow>
           Wrote ''data/processed/summary.csv'' \<in> set (log (fst (run_quick_eda w)))
           \<and> (\<exists>f. plot_time_series df ''Macro & Market Time Series'' = Inr f))
      \<and> (Wrote ''figures/time_series.png'' \<in> set (log (fst (run_quick_eda w))) \<longleftrightarrow>
           PlotTimeSeries \<in> set (log (fst (run_quick_eda w)))
           \<and> writable w ''figures/time_series.png'')
      \<and> (PlotCorrelation \<in> set (log (fst (run_quick_eda w))) \<longleftrightarrow>
           Wrote ''figures/time_series.png'' \<in> set (log (fst (run_quick_eda w)))
           \<and> (\<exists>f. plot_correlation_heatmap df ''Correlation (monthly freq)'' = Inr f))
      \<and> (Wrote ''figures/correlation.png'' \<in> set (log (fst (run_quick_eda w))) \<longleftrightarrow>
           PlotCorrelation \<in> set (log (fst (run_quick_eda w)))
           \<and> writable w ''figures/correlation.png'')
      \<and> (PlotDistribution \<in> set (log (fst (run_quick_eda w))) \<longleftrightarrow>
           Wrote ''figures/correlation.png'' \<in> set (log (fst (run_quick_eda w)))
           \<and> (\<exists>f. plot_distribution df
                       (Some [''cpi'', ''unemployment_rate'', ''fed_funds_rate'']) = Inr f))
      \<and> (Wrote ''figures/distributions.png'' \<in> set (log (fst (run_quick_eda w))) \<longleftrightarrow>
           PlotDistribution \<in> set (log (fst (run_quick_eda w)))
           \<and> writable w ''figures/distributions.png'')
      \<and> (snd (run_quick_eda w) = Inr () \<longleftrightarrow>
           Wrote ''figures/distributions.png'' \<in> set (log (fst (run_quick_eda w))))))
   \<and> (\<forall>p a. (p, a) \<in> set (files (fst (run_quick_eda w))) \<longrightarrow>
     (\<exists>df. fetch_fred_series w fred_series ''2010-01-01'' None = Inr df
        \<and> ((p = ''data/processed/summary.csv''
              \<and> (\<exists>s. summarize_timeseries df = Inr s \<and> a = Csv s))
           \<or> (p = ''figures/time_series.png''
              \<and> (\<exists>f. plot_time_series df ''Macro & Market Time Series'' = Inr f
                    \<and> a = Png f 200))
           \<or> (p = ''figures/correlation.png''
              \<and> (\<exists>f. plot_correlation_heatmap df ''Correlation (monthly freq)'' = Inr f
                    \<and> a = Png f 200))
           \<or> (p = ''figures/distributions.png''
              \<and> (\<exists>f. plot_distribution df
                          (Some [''cpi'', ''unemployment_rate'', ''fed_funds_rate'']) = Inr f
                    \<and> a = Png f 200)))))
   \<and> (snd (run_quick_eda w) = Inr () \<longrightarrow>
     (\<exists>df s f1 f2 f3.
        fetch_fred_series w fred_series ''2010-01-01'' None = Inr df
        \<and> summarize_timeseries df = Inr s
        \<and> plot_time_series df ''Macro & Market Time Series'' = Inr f1
        \<and> plot_correlation_heatmap df ''Correlation (monthly freq)'' = Inr f2
        \<and> plot_distribution df (Some [''cpi'', ''unemployment_rate'', ''fed_funds_rate'']) = Inr f3
        \<and> fst (run_quick_eda w) =
            \<lparr>log = full_log,
             files = [(''data/processed/summary.csv'', Csv s),
                      (''figures/time_series.png'', Png f1 200),
                      (''figures/correlation.png'', Png f2 200),
                      (''figures/distributions.png'', Png f3 200)]\<rparr>))"
proof -
  have 1: "prefix (log (fst (run_quick_eda w))) full_log"
    and 2: "map fst (files (fst (run_quick_eda w))) = written (log (fst (run_quick_eda w)))"
    using run_quick_eda_log[of w] by simp_all
  show ?thesis
    by (rule conjI[OF 1 conjI[OF 2 conjI[OF run_quick_eda_events
          conjI[OF run_quick_eda_artifacts run_quick_eda_complete_session]]]])
qed

theorem run_quick_eda_steps_in_order_witness:
  "snd (run_quick_eda fred_world) = Inr ()
   \<and> (\<exists>s f1 f2 f3.
        summarize_timeseries fred_table = Inr s
        \<and> plot_time_series fred_table ''Macro & Market Time Series'' = Inr f1
        \<and> plot_correlation_heatmap fred_table ''Correlation (monthly freq)'' = Inr f2
        \<and> plot_distribution fred_table
             (Some [''cpi'', ''unemployment_rate'', ''fed_funds_rate'']) = Inr f3
        \<and> fst (run_quick_eda fred_world) =
            \<lparr>log = full_log,
             files = [(''data/processed/summary.csv'', Csv s),
                      (''figures/time_series.png'', Png f1 200),
                      (''figures/correlation.png'', Png f2 200),
                      (''figures/distributions.png'', Png f3 200)]\<rparr>)"
proof -
  have ok: "snd (run_quick_eda fred_world) = Inr ()"
    by (rule run_quick_eda_completes[OF fetch_fred_table(1)])
      (simp_all add: fred_table_def columns_def fred_world_def output_paths_def)
  show ?thesis
    using ok run_quick_eda_steps_in_order[of fred_world]
    by (simp add: fetch_fred_table(1))
qed

text \<open>
  Claim C5, as the code has it. When a step raises, the run ends there: the steps
  completed are a proper initial part of the fixed sequence, none of them done twice, and
  the files present are those written by the steps completed before the failure. No file
  at all is left only when the failure comes before the summary has been written.
\<close>

theorem run_quick_eda_aborts_at_failure:
  assumes "snd (run_quick_eda w) = Inl e"
  shows "strict_prefix (log (fst (run_quick_eda w))) full_log
     \<and> distinct (log (fst (run_quick_eda w)))
     \<and> map fst (files (fst (run_quick_eda w))) = written (log (fst (run_quick_eda w)))
     \<and> (files (fst (run_quick_eda w)) = [] \<longleftrightarrow> length (log (fst (run_quick_eda w))) < 3)"
proof -
  have p: "prefix (log (fst (run_quick_eda w))) full_log"
    and n: "log (fst (run_quick_eda w)) \<noteq> full_log"
    and f: "map fst (files (fst (run_quick_eda w))) = written (log (fst (run_quick_eda w)))"
    and z: "files (fst (run_quick_eda w)) = [] \<longleftrightarrow> length (log (fst (run_quick_eda w))) < 3"
    using run_quick_eda_log[of w] assms by simp_all
  have "distinct (log (fst (run_quick_eda w)))"
    using p distinct_full_log by (metis distinct_append prefix_def)
  then show ?thesis using p n f z by (simp add: strict_prefix_def)
qed

theorem run_quick_eda_aborts_at_failure_witness:
  "snd (run_quick_eda no_figures_world) = Inl OSError
   \<and> strict_prefix (log (fst (run_quick_eda no_figures_world))) full_log
   \<and> log (fst (run_quick_eda no_figures_world)) =
       [Fetch, Summarize, Wrote ''data/processed/summary.csv'', PlotTimeSeries]"
proof -
  have r: "snd (run_quick_eda no_figures_world) = Inl OSError"
    "log (fst (run_quick_eda no_figures_world)) =
       [Fetch, Summarize, Wrote ''data/processed/summary.csv'', PlotTimeSeries]"
    by (rule run_quick_eda_without_figures[OF fetch_fred_table(2)];
        simp add: fred_table_def no_figures_world_def)+
  show ?thesis
    using r run_quick_eda_aborts_at_failure[OF r(1)] by simp
qed

text \<open>
  Claim C5 as stated fails: with a file system that refuses the paths under \<^verbatim>\<open>figures/\<close>,
  the run raises when it saves the first chart, and the summary file has been written.
\<close>

theorem run_quick_eda_partial_output_counterexample:
  "snd (run_quick_eda no_figures_world) = Inl OSError
   \<and> map fst (files (fst (run_quick_eda no_figures_world))) = [''data/processed/summary.csv'']"
proof -
  have "snd (run_quick_eda no_figures_world) = Inl OSError"
    "map fst (files (fst (run_quick_eda no_figures_world))) = [''data/processed/summary.csv'']"
    by (rule run_quick_eda_without_figures[OF fetch_fred_table(2)];
        simp add: fred_table_def no_figures_world_def)+
  then show ?thesis by simp
qed

section \<open>Properties of the functions over the store\<close>

lemma table_at_append:
  assumes "table_at h df = Inr t"
  shows "table_at (h @ new) df = Inr t"
  using assms by (auto simp: table_at_def nth_append split: if_splits)

lemma setitem_in_last:
  "setitem_in (h @ [Summary f]) (length h) name s =
     bind_result (setitem f name s) (\<lambda>f'. Inr (h @ [Summary f']))"
  by (simp add: setitem_in_def bind_result_def split: sum.splits)

lemma draw_in_at:
  "draw_in (pre @ Fig f # post) (length pre) g =
     bind_result (g f) (\<lambda>f'. Inr (pre @ Fig f' # post))"
  by (simp add: draw_in_def bind_result_def split: sum.splits)

lemma summarize_timeseries_in_eq:
  assumes "table_at h df = Inr t"
  shows "summarize_timeseries_in h df =
     (case summarize_timeseries t of
        Inl e \<Rightarrow> Inl e
      | Inr s \<Rightarrow> Inr (length h, h @ [Summary s]))"
  using assms table_at_append[OF assms]
  by (simp add: summarize_timeseries_in_def summarize_timeseries_def alloc_def setitem_in_last
      bind_result_def split: sum.splits)

lemma plot_time_series_in_eq:
  assumes "table_at h df = Inr t"
  shows "plot_time_series_in h df ttl =
     (case plot_time_series t ttl of
        Inl e \<Rightarrow> Inl e
      | Inr fig \<Rightarrow> Inr (length h, h @ [Fig fig]))"
  using table_at_append[OF assms] draw_in_at[of h _ "[]"]
  by (simp add: plot_time_series_in_def plot_time_series_def alloc_def
      bind_result_def subplots_def split: sum.splits)

lemma plot_correlation_heatmap_in_eq:
  assumes "table_at h df = Inr t"
  shows "plot_correlation_heatmap_in h df ttl =
     (case plot_correlation_heatmap t ttl of
        Inl e \<Rightarrow> Inl e
      | Inr fig \<Rightarrow>
          Inr (length h + 2,
               h @ [Monthly (group_mean (resample_M t)),
                    Corr (corr (group_mean (resample_M t))), Fig fig]))"
proof -
  let ?m = "Monthly (group_mean (resample_M t))"
  let ?c = "Corr (corr (group_mean (resample_M t)))"
  have d: "draw_in (h @ [?m, ?c, Fig f]) (Suc (Suc (length h))) g =
     bind_result (g f) (\<lambda>f'. Inr (h @ [?m, ?c, Fig f']))" for f g
    using draw_in_at[of "h @ [?m, ?c]" f "[]" g] by simp
  show ?thesis
    using assms
    by (simp add: plot_correlation_heatmap_in_def plot_correlation_heatmap_def alloc_def
      monthly_at_def corr_at_def nth_append d Let_def
      bind_result_def subplots_def split: sum.splits)
qed

lemma distribution_loop_in_eq:
  assumes "table_at h0 df = Inr t"
  shows "case distribution_loop t items f of
           Inl e \<Rightarrow> distribution_loop_in df items (length h0) (h0 @ Fig f # vals) = Inl e
         | Inr f' \<Rightarrow> \<exists>vals'. list_all (\<lambda>v. \<exists>xs. v = Values xs) vals'
              \<and> distribution_loop_in df items (length h0) (h0 @ Fig f # vals) =
                  Inr (h0 @ Fig f' # vals @ vals')"
proof (induction items arbitrary: f vals)
  case Nil
  then show ?case by simp
next
  case (Cons item items)
  obtain ax col where item: "item = (ax, col)" by (cases item)
  have t: "table_at (h0 @ Fig f # vals) df = Inr t" by (rule table_at_append[OF assms])
  show ?case
  proof (cases "column t col")
    case None
    then show ?thesis by (simp add: item t bind_result_def)
  next
    case (Some vs)
    have v: "values_at (h0 @ Fig f # vals @ [Values (dropna vs)]) (Suc (length h0 + length vals)) =
        Inr (dropna vs)"
      by (simp add: values_at_def nth_append)
    have d: "draw_in (h0 @ Fig f1 # vals @ [Values (dropna vs)]) (length h0) g =
       bind_result (g f1) (\<lambda>f'. Inr (h0 @ Fig f' # vals @ [Values (dropna vs)]))" for f1 g
      by (rule draw_in_at)
    show ?thesis
    proof (cases "on_axes f ax (draw (Hist (dropna vs)))")
      case (Inl e)
      then show ?thesis by (simp add: item t Some alloc_def v d bind_result_def)
    next
      case (Inr f1)
      show ?thesis
      proof (cases "on_axes f1 ax (\<lambda>a. a\<lparr>title := ''Distribution of '' @ col\<rparr>)")
        case (Inl e)
        then show ?thesis using Inr by (simp add: item t Some alloc_def v d bind_result_def)
      next
        case f2: (Inr f2)
        have step: "distribution_loop_in df (item # items) (length h0) (h0 @ Fig f # vals) =
            distribution_loop_in df items (length h0) (h0 @ Fig f2 # (vals @ [Values (dropna vs)]))"
          using Inr f2 by (simp add: item t Some alloc_def v d bind_result_def)
        have pure: "distribution_loop t (item # items) f = distribution_loop t items f2"
          using Inr f2 by (simp add: item Some bind_result_def)
        show ?thesis
          unfolding step pure
          using Cons.IH[of f2 "vals @ [Values (dropna vs)]"]
          by (auto split: sum.splits)
      qed
    qed
  qed
qed

lemma plot_distribution_in_eq:
  assumes "table_at h df = Inr t"
  shows "case plot_distribution t sel of
           Inl e \<Rightarrow> plot_distribution_in h df sel = Inl e
         | Inr fig \<Rightarrow> \<exists>vals. list_all (\<lambda>v. \<exists>xs. v = Values xs) vals
              \<and> plot_distribution_in h df sel = Inr (length h, h @ Fig fig # vals)"
proof -
  define selected where "selected = (case sel of Some cs \<Rightarrow> cs | None \<Rightarrow> columns t)"
  define items where "items = (if length selected = 1 then [Ax 0] else map Ax [0..<length selected])"
  define blank where "blank = \<lparr>subplots_of = replicate (length selected) blank_axes\<rparr>"
  show ?thesis
  proof (cases "selected = []")
    case True
    then show ?thesis
      using assms by (simp add: plot_distribution_def plot_distribution_in_def selected_def
          bind_result_def Let_def subplots_def)
  next
    case False
    have pure: "plot_distribution t sel = distribution_loop t (zip items selected) blank"
      using False
      by (simp add: plot_distribution_def selected_def[symmetric] items_def blank_def
          bind_result_def Let_def subplots_def iterate_def)
    have st: "plot_distribution_in h df sel =
        bind_result (distribution_loop_in df (zip items selected) (length h) (h @ Fig blank # []))
          (\<lambda>h'. Inr (length h, h'))"
      using assms False
      by (simp add: plot_distribution_in_def selected_def[symmetric] items_def blank_def
          bind_result_def Let_def alloc_def subplots_def iterate_def)
    show ?thesis
      unfolding pure st
      using distribution_loop_in_eq[OF assms, of "zip items selected" blank "[]"]
      by (auto simp: bind_result_def split: sum.splits)
  qed
qed

lemma preserves_append: "preserves h (h @ new)"
  by (simp add: preserves_def)

text \<open>
  Claim C8. Given a reference to the merged table, \<^verbatim>\<open>summarize_timeseries\<close>,
  \<^verbatim>\<open>plot_time_series\<close>, \<^verbatim>\<open>plot_correlation_heatmap\<close> and \<^verbatim>\<open>plot_distribution\<close> over the
  store compute what they compute on the table's value, and whenever one of them
  returns, every object that was in the store, the merged table among them, is unchanged:
  the summary, the monthly table, the correlation matrix, the dropped-value columns and
  the figure are new objects, and the assignments and drawing calls of the functions
  land in those.
\<close>

theorem merged_table_never_mutated:
  assumes "table_at h df = Inr t"
  shows "summarize_timeseries_in h df =
           (case summarize_timeseries t of
              Inl e \<Rightarrow> Inl e
            | Inr s \<Rightarrow> Inr (length h, h @ [Summary s]))
     \<and> plot_time_series_in h df ttl =
           (case plot_time_series t ttl of
              Inl e \<Rightarrow> Inl e
            | Inr fig \<Rightarrow> Inr (length h, h @ [Fig fig]))
     \<and> plot_correlation_heatmap_in h df ttl =
           (case plot_correlation_heatmap t ttl of
              Inl e \<Rightarrow> Inl e
            | Inr fig \<Rightarrow>
                Inr (length h + 2,
                     h @ [Monthly (group_mean (resample_M t)),
                          Corr (corr (group_mean (resample_M t))), Fig fig]))
     \<and> (case plot_distribution t sel of
           Inl e \<Rightarrow> plot_distribution_in h df sel = Inl e
         | Inr fig \<Rightarrow> \<exists>vals. list_all (\<lambda>v. \<exists>xs. v = Values xs) vals
              \<and> plot_distribution_in h df sel = Inr (length h, h @ Fig fig # vals))
     \<and> (summarize_timeseries_in h df = Inr (r, h') \<or> plot_time_series_in h df ttl = Inr (r, h')
          \<or> plot_correlation_heatmap_in h df ttl = Inr (r, h')
          \<or> plot_distribution_in h df sel = Inr (r, h')
         \<longrightarrow> preserves h h' \<and> table_at h' df = Inr t \<and> length h \<le> r \<and> r < length h')"
proof -
  note 1 = summarize_timeseries_in_eq[OF assms]
  note 2 = plot_time_series_in_eq[OF assms, of ttl]
  note 3 = plot_correlation_heatmap_in_eq[OF assms, of ttl]
  note 4 = plot_distribution_in_eq[OF assms, of sel]
  have 5: "preserves h h' \<and> table_at h' df = Inr t \<and> length h \<le> r \<and> r < length h'"
    if "summarize_timeseries_in h df = Inr (r, h') \<or> plot_time_series_in h df ttl = Inr (r, h')
          \<or> plot_correlation_heatmap_in h df ttl = Inr (r, h')
          \<or> plot_distribution_in h df sel = Inr (r, h')"
  proof -
    from that obtain new where "h' = h @ new" "r = length h \<or> r = length h + 2"
      "r < length h'"
      unfolding 1 2 3 using 4 by (elim disjE) (auto split: sum.splits)
    then show ?thesis using table_at_append[OF assms] by (auto simp: preserves_append)
  qed
  show ?thesis using 1 2 3 4 5 by blast
qed

theorem merged_table_never_mutated_witness:
  "table_at [Table demo_table] 0 = Inr demo_table
   \<and> (\<exists>s. summarize_timeseries_in [Table demo_table] 0 = Inr (1, [Table demo_table, Summary s])
         \<and> preserves [Table demo_table] [Table demo_table, Summary s]
         \<and> table_at [Table demo_table, Summary s] 0 = Inr demo_table)"
proof -
  have h: "table_at [Table demo_table] 0 = Inr demo_table" by (simp add: table_at_def)
  have "cols demo_table \<noteq> []" by (simp add: demo_table_def)
  then obtain s where s: "summarize_timeseries demo_table = Inr s"
    using summarize_timeseries_columns by blast
  have eq: "summarize_timeseries_in [Table demo_table] 0 = Inr (1, [Table demo_table, Summary s])"
    using merged_table_never_mutated[OF h] s by simp
  have "preserves [Table demo_table] [Table demo_table, Summary s]
      \<and> table_at [Table demo_table, Summary s] 0 = Inr demo_table"
    using merged_table_never_mutated[OF h, of "[]" None 1 "[Table demo_table, Summary s]"] eq
    by blast
  then show ?thesis using h eq by blast
qed

end
